theory Spec2Isabelle
  imports Main
begin

section \<open>Values of the program\<close>

text \<open>
  A thrown or rejected value is a JavaScript error object: its \<^verbatim>\<open>name\<close> and its
  \<^verbatim>\<open>message\<close>. \<^verbatim>\<open>new Error(msg)\<close> has the name \<^verbatim>\<open>Error\<close>; the rejection of an
  aborted \<^verbatim>\<open>fetch\<close> has the name \<^verbatim>\<open>AbortError\<close>, which is all the source tests
  (\<^verbatim>\<open>err instanceof Error && err.name === 'AbortError'\<close>).
\<close>

datatype js_error = JsError (err_name: string) (err_message: string)

definition new_Error :: "string \<Rightarrow> js_error" where
  "new_Error msg = JsError ''Error'' msg"

definition is_abort :: "js_error \<Rightarrow> bool" where
  "is_abort err = (err_name err = ''AbortError'')"

text \<open>
  The body of a response once \<^verbatim>\<open>res.json()\<close> has parsed it. An object is the list of
  its own properties, read with \<open>map_of\<close>; properties inherited from \<^verbatim>\<open>Object.prototype\<close>
  are not modelled.
\<close>

datatype json =
    JNull
  | JBool bool
  | JNum int
  | JStr string
  | JArr "json list"
  | JObj "(string \<times> json) list"

datatype 'a promise = Pending | Fulfilled 'a | Rejected js_error

text \<open>
  Modelled from the spec: \<^verbatim>\<open>isRecordOfStrings\<close> and \<^verbatim>\<open>isRecord\<close> are imported from
  \<^verbatim>\<open>./common\<close>, which is not among the sources. The spec has the index body validated
  as "a flat mapping of strings to strings" and the phrase body as "a JSON object (not
  array/primitive)". \<open>strings_of\<close> is the narrowing of the type guard: the entries of a
  record of strings.
\<close>

fun is_JStr :: "json \<Rightarrow> bool" where
  "is_JStr (JStr s) = True"
| "is_JStr j = False"

fun isRecordOfStrings :: "json \<Rightarrow> bool" where
  "isRecordOfStrings (JObj kvs) = list_all (\<lambda>kv. is_JStr (snd kv)) kvs"
| "isRecordOfStrings j = False"

fun isRecord :: "json \<Rightarrow> bool" where
  "isRecord (JObj kvs) = True"
| "isRecord j = False"

fun string_of :: "json \<Rightarrow> string" where
  "string_of (JStr s) = s"
| "string_of j = []"

fun strings_of :: "json \<Rightarrow> (string \<times> string) list" where
  "strings_of (JObj kvs) = map (\<lambda>kv. (fst kv, string_of (snd kv))) kvs"
| "strings_of j = []"

text \<open>
  \<^verbatim>\<open>!x\<close> for \<^verbatim>\<open>x: string | undefined\<close>: a missing property and the empty string are
  both falsy.
\<close>

fun falsy :: "string option \<Rightarrow> bool" where
  "falsy None = True"
| "falsy (Some s) = (s = [])"

text \<open>
  \<^verbatim>\<open>obj[key]\<close> for a plain object: \<^verbatim>\<open>manifest\<close>, \<^verbatim>\<open>caches.indexes\<close>, \<^verbatim>\<open>caches.phrases\<close> and the
  parsed index are object literals or results of \<^verbatim>\<open>JSON.parse\<close>, so a key that is not an
  own property is looked up in \<^verbatim>\<open>Object.prototype\<close>. Its property names are those of the
  language standard; each holds a function, or for \<^verbatim>\<open>__proto__\<close> the prototype object
  itself, which is truthy and is kept here by its name.
\<close>

definition object_prototype :: "string list" where
  "object_prototype =
     [''constructor'', ''hasOwnProperty'', ''isPrototypeOf'', ''propertyIsEnumerable'',
      ''toLocaleString'', ''toString'', ''valueOf'', ''__proto__'', ''__defineGetter__'',
      ''__defineSetter__'', ''__lookupGetter__'', ''__lookupSetter__'']"

datatype 'a property = Undefined | Own 'a | Inherited string

definition read_property :: "(string \<rightharpoonup> 'a) \<Rightarrow> string \<Rightarrow> 'a property" where
  "read_property obj key =
     (case obj key of
        Some v \<Rightarrow> Own v
      | None \<Rightarrow> if key \<in> set object_prototype then Inherited key else Undefined)"

text \<open>The truthiness of \<^verbatim>\<open>obj[key]\<close> where the own properties are strings.\<close>

fun truthy :: "string property \<Rightarrow> bool" where
  "truthy Undefined = False"
| "truthy (Own s) = (s \<noteq> [])"
| "truthy (Inherited b) = True"

text \<open>The template literal \<^verbatim>\<open>`${locale}-${namespace}`\<close> of \<^verbatim>\<open>load\<close> and \<^verbatim>\<open>usePolyglot\<close>.\<close>

definition cache_id :: "string \<Rightarrow> string \<Rightarrow> string" where
  "cache_id loc namespace = loc @ ''-'' @ namespace"

text \<open>The template literal \<^verbatim>\<open>`${baseUrl}/${locale}/${file}`\<close> of both requests.\<close>

definition resource_url :: "string \<Rightarrow> string \<Rightarrow> string \<Rightarrow> string" where
  "resource_url base loc file = base @ ''/'' @ loc @ ''/'' @ file"

section \<open>The loader\<close>

subsection \<open>What an HTTP GET gives back\<close>

text \<open>
  \<^verbatim>\<open>await fetch(url, {signal})\<close> rejects (network error, abort) or gives a response with
  a status; \<^verbatim>\<open>await res.json()\<close> then rejects (malformed body, abort while reading) or
  gives the parsed body. The executor touches neither the caches nor its promise between
  the two awaits, so both are one answer of the environment. \<^verbatim>\<open>fetch\<close> is taken to
  return a promise and never to throw when called.
\<close>

datatype body = Unparsable js_error | Parsed json

datatype response = NoResponse js_error | Response nat body

text \<open>\<^verbatim>\<open>String(res.status)[0]\<close>: the leading decimal digit of the status.\<close>

function leading_digit :: "nat \<Rightarrow> nat" where
  "leading_digit n = (if n < 10 then n else leading_digit (n div 10))"
  by pat_completeness auto
termination
  by (relation "measure (\<lambda>n. n)") auto

declare leading_digit.simps [simp del]

text \<open>The \<^verbatim>\<open>try\<close> block of the index executor: the value resolved, or the error caught.\<close>

definition read_index :: "response \<Rightarrow> js_error + (string \<times> string) list" where
  "read_index r =
     (case r of
        NoResponse err \<Rightarrow> Inl err
      | Response status b \<Rightarrow>
          if leading_digit status \<noteq> 2 then Inl (new_Error ''Failed to load'')
          else (case b of
                  Unparsable err \<Rightarrow> Inl err
                | Parsed index \<Rightarrow>
                    if \<not> isRecordOfStrings index then Inl (new_Error ''Invalid format'')
                    else Inr (strings_of index)))"

text \<open>The \<^verbatim>\<open>try\<close> block of the phrase executor.\<close>

definition read_phrases :: "response \<Rightarrow> js_error + json" where
  "read_phrases r =
     (case r of
        NoResponse err \<Rightarrow> Inl err
      | Response status b \<Rightarrow>
          if leading_digit status \<noteq> 2 then Inl (new_Error ''Failed to load phrases'')
          else (case b of
                  Unparsable err \<Rightarrow> Inl err
                | Parsed resource \<Rightarrow>
                    if \<not> isRecord resource then Inl (new_Error ''Invalid format'')
                    else Inr resource))"

text \<open>The errors \<^verbatim>\<open>load\<close> throws or rejects with, named as the spec names them.\<close>

definition MissingLocaleConfig :: "string \<Rightarrow> js_error" where
  "MissingLocaleConfig loc = new_Error (''Missing index for '' @ loc)"

definition MissingNamespace :: "string \<Rightarrow> string \<Rightarrow> js_error" where
  "MissingNamespace namespace loc =
     new_Error (''Missing namespace '' @ namespace @ '' on locale '' @ loc)"

definition IndexLoadFailed :: "string \<Rightarrow> js_error \<Rightarrow> js_error" where
  "IndexLoadFailed loc err =
     new_Error (''Could not read index for '' @ loc @ ''. Reason: '' @ err_message err)"

definition PhraseLoadFailed :: "string \<Rightarrow> string \<Rightarrow> js_error \<Rightarrow> js_error" where
  "PhraseLoadFailed namespace loc err =
     new_Error (''Failed to load phrases of namespace '' @ namespace @ '' in '' @ loc
                @ ''. Reason: '' @ err_message err)"

text \<open>The \<^verbatim>\<open>catch\<close> blocks' choice of the value to reject with.\<close>

definition index_rejection :: "string \<Rightarrow> js_error \<Rightarrow> js_error" where
  "index_rejection loc err = (if is_abort err then err else IndexLoadFailed loc err)"

definition phrase_rejection :: "string \<Rightarrow> string \<Rightarrow> js_error \<Rightarrow> js_error" where
  "phrase_rejection namespace loc err =
     (if is_abort err then err else PhraseLoadFailed namespace loc err)"

subsection \<open>The session: caches, promises, calls\<close>

text \<open>
  Each \<^verbatim>\<open>new Promise(async (resolve, reject) => ...)\<close> of \<^verbatim>\<open>load\<close> issues exactly one
  GET when it is created (the executor runs up to its first \<^verbatim>\<open>await\<close>), so a promise is
  kept with what its executor closes over: the key, the URL and signal of its GET, and
  its state. The list of promises of a kind is also the log of the GETs of that kind.
\<close>

record index_promise =
  ix_locale :: string
  ix_url :: string
  ix_signal :: "nat option"
  ix_state :: "(string \<times> string) list promise"

record phrase_promise =
  ph_locale :: string
  ph_namespace :: string
  ph_url :: string
  ph_signal :: "nat option"
  ph_state :: "json promise"

text \<open>
  What \<^verbatim>\<open>await indexes[locale]\<close> awaits: a promise of the cache, or the inherited property
  of that name, which is no promise and is what the \<^verbatim>\<open>await\<close> gives.
\<close>

datatype awaited = Promised nat | Builtin string

text \<open>
  A call of \<^verbatim>\<open>load\<close> is suspended at \<^verbatim>\<open>await indexes[locale]\<close> (with its locale,
  namespace, signal and what it awaits), has returned a phrase promise (or the inherited
  property that \<^verbatim>\<open>phrases[id]\<close> gave), or has thrown.
\<close>

datatype call =
    Awaiting string string "nat option" awaited
  | Returned nat
  | ReturnedBuiltin string
  | Threw js_error

text \<open>
  \<^verbatim>\<open>interface Caches\<close>: both tables hold promises, here by their number. \<open>calls\<close> are the
  calls of \<^verbatim>\<open>load\<close> so far.
\<close>

record session =
  phrases :: "string \<rightharpoonup> nat"
  indexes :: "string \<rightharpoonup> nat"
  index_promises :: "index_promise list"
  phrase_promises :: "phrase_promise list"
  calls :: "call list"

definition initial :: session where
  "initial = \<lparr>phrases = Map.empty, indexes = Map.empty, index_promises = [],
              phrase_promises = [], calls = []\<rparr>"

text \<open>
  What is fixed for the session: \<^verbatim>\<open>SetupOptions.manifest\<close> and \<^verbatim>\<open>HandoffData.baseUrl\<close>, and
  of the runtime what \<^verbatim>\<open>load\<close> can reach of an inherited property \<open>b\<close>: how a template
  literal renders it (\<open>builtin_text b\<close>, for a function its source text), and its own
  property \<^verbatim>\<open>b[name]\<close> (\<open>builtin_member b name\<close>: \<open>None\<close> when that is falsy, otherwise how
  a template literal renders it).
\<close>

record options =
  manifest :: "string \<rightharpoonup> string"
  baseUrl :: string
  builtin_text :: "string \<Rightarrow> string"
  builtin_member :: "string \<Rightarrow> string \<Rightarrow> string option"

text \<open>\<^verbatim>\<open>${obj[key]}\<close> in a template literal.\<close>

definition text_of :: "options \<Rightarrow> string property \<Rightarrow> string" where
  "text_of cfg v =
     (case v of
        Undefined \<Rightarrow> ''undefined''
      | Own s \<Rightarrow> s
      | Inherited b \<Rightarrow> builtin_text cfg b)"

definition lookup :: "'a list \<Rightarrow> nat \<Rightarrow> 'a option" where
  "lookup xs i = (if i < length xs then Some (xs ! i) else None)"

subsection \<open>\<^verbatim>\<open>load\<close>, from its call to its first await\<close>

definition load :: "options \<Rightarrow> string \<Rightarrow> string \<Rightarrow> nat option \<Rightarrow> session \<Rightarrow> session" where
  "load cfg loc namespace signal w =
     (case read_property (phrases w) (cache_id loc namespace) of
        Own p \<Rightarrow> w\<lparr>calls := calls w @ [Returned p]\<rparr>
      | Inherited b \<Rightarrow> w\<lparr>calls := calls w @ [ReturnedBuiltin b]\<rparr>
      | Undefined \<Rightarrow>
          if \<not> truthy (read_property (manifest cfg) loc)
          then w\<lparr>calls := calls w @ [Threw (MissingLocaleConfig loc)]\<rparr>
          else
            (case read_property (indexes w) loc of
               Own p \<Rightarrow> w\<lparr>calls := calls w @ [Awaiting loc namespace signal (Promised p)]\<rparr>
             | Inherited b \<Rightarrow>
                 w\<lparr>calls := calls w @ [Awaiting loc namespace signal (Builtin b)]\<rparr>
             | Undefined \<Rightarrow>
                 w\<lparr>indexes := (indexes w)(loc \<mapsto> length (index_promises w)),
                   index_promises := index_promises w @
                     [\<lparr>ix_locale = loc,
                       ix_url = resource_url (baseUrl cfg) loc
                                  (text_of cfg (read_property (manifest cfg) loc)),
                       ix_signal = signal, ix_state = Pending\<rparr>],
                   calls := calls w @
                     [Awaiting loc namespace signal
                        (Promised (length (index_promises w)))]\<rparr>))"

subsection \<open>The executors, when their GET is answered\<close>

definition settle_index :: "nat \<Rightarrow> response \<Rightarrow> session \<Rightarrow> session option" where
  "settle_index p r w =
     (case lookup (index_promises w) p of
        None \<Rightarrow> None
      | Some job \<Rightarrow>
          if ix_state job \<noteq> Pending then None
          else
            (case read_index r of
               Inr index \<Rightarrow>
                 Some (w\<lparr>index_promises :=
                          (index_promises w)[p := job\<lparr>ix_state := Fulfilled index\<rparr>]\<rparr>)
             | Inl err \<Rightarrow>
                 Some (w\<lparr>indexes := (indexes w)(ix_locale job := None),
                         index_promises := (index_promises w)
                           [p := job\<lparr>ix_state :=
                                      Rejected (index_rejection (ix_locale job) err)\<rparr>]\<rparr>)))"

definition settle_phrases :: "nat \<Rightarrow> response \<Rightarrow> session \<Rightarrow> session option" where
  "settle_phrases p r w =
     (case lookup (phrase_promises w) p of
        None \<Rightarrow> None
      | Some job \<Rightarrow>
          if ph_state job \<noteq> Pending then None
          else
            (case read_phrases r of
               Inr resource \<Rightarrow>
                 Some (w\<lparr>phrase_promises :=
                          (phrase_promises w)[p := job\<lparr>ph_state := Fulfilled resource\<rparr>]\<rparr>)
             | Inl err \<Rightarrow>
                 Some (w\<lparr>phrases :=
                          (phrases w)(cache_id (ph_locale job) (ph_namespace job) := None),
                         phrase_promises := (phrase_promises w)
                           [p := job\<lparr>ph_state :=
                                      Rejected (phrase_rejection (ph_namespace job)
                                                  (ph_locale job) err)\<rparr>]\<rparr>)))"

subsection \<open>\<^verbatim>\<open>load\<close>, from \<^verbatim>\<open>await indexes[locale]\<close> to its end\<close>

text \<open>
  From \<^verbatim>\<open>if (!index[namespace])\<close> to the end: \<open>file\<close> is \<open>None\<close> when \<^verbatim>\<open>index[namespace]\<close>
  is falsy, otherwise how the template literal of the URL renders it.
\<close>

definition finish ::
  "options \<Rightarrow> nat \<Rightarrow> string \<Rightarrow> string \<Rightarrow> nat option \<Rightarrow> string option \<Rightarrow> session \<Rightarrow> session" where
  "finish cfg n loc namespace signal file w =
     (case file of
        None \<Rightarrow> w\<lparr>calls := (calls w)[n := Threw (MissingNamespace namespace loc)]\<rparr>
      | Some f \<Rightarrow>
          w\<lparr>phrases := (phrases w)(cache_id loc namespace \<mapsto> length (phrase_promises w)),
            phrase_promises := phrase_promises w @
              [\<lparr>ph_locale = loc, ph_namespace = namespace,
                ph_url = resource_url (baseUrl cfg) loc f,
                ph_signal = signal, ph_state = Pending\<rparr>],
            calls := (calls w)[n := Returned (length (phrase_promises w))]\<rparr>)"

text \<open>\<^verbatim>\<open>index[namespace]\<close> for a fulfilled index, as \<open>finish\<close> takes it.\<close>

definition index_file :: "options \<Rightarrow> (string \<times> string) list \<Rightarrow> string \<Rightarrow> string option" where
  "index_file cfg index namespace =
     (if truthy (read_property (map_of index) namespace)
      then Some (text_of cfg (read_property (map_of index) namespace))
      else None)"

definition resume :: "options \<Rightarrow> nat \<Rightarrow> session \<Rightarrow> session option" where
  "resume cfg n w =
     (case lookup (calls w) n of
        Some (Awaiting loc namespace signal (Promised p)) \<Rightarrow>
          (case lookup (index_promises w) p of
             None \<Rightarrow> None
           | Some job \<Rightarrow>
               (case ix_state job of
                  Pending \<Rightarrow> None
                | Rejected err \<Rightarrow> Some (w\<lparr>calls := (calls w)[n := Threw err]\<rparr>)
                | Fulfilled index \<Rightarrow>
                    Some (finish cfg n loc namespace signal
                            (index_file cfg index namespace) w)))
      | Some (Awaiting loc namespace signal (Builtin b)) \<Rightarrow>
          Some (finish cfg n loc namespace signal (builtin_member cfg b namespace) w)
      | _ \<Rightarrow> None)"

subsection \<open>Runs of the session\<close>

text \<open>
  The single-threaded event loop: a call of \<^verbatim>\<open>load\<close> runs to its first await, the
  environment answers a pending GET and the executor runs to its end, or a suspended call
  continues to its end, once the index promise it awaits has settled (at once when what
  it awaits is no promise). An event that is not enabled gives \<open>None\<close>.
\<close>

datatype event =
    Load string string "nat option"
  | IndexResponse nat response
  | PhraseResponse nat response
  | Resume nat

fun step :: "options \<Rightarrow> session \<Rightarrow> event \<Rightarrow> session option" where
  "step cfg w (Load loc namespace signal) = Some (load cfg loc namespace signal w)"
| "step cfg w (IndexResponse p r) = settle_index p r w"
| "step cfg w (PhraseResponse p r) = settle_phrases p r w"
| "step cfg w (Resume n) = resume cfg n w"

text \<open>A sequence of events; one that is not enabled when its turn comes does not happen.\<close>

definition after :: "options \<Rightarrow> session \<Rightarrow> event \<Rightarrow> session" where
  "after cfg w e = (case step cfg w e of None \<Rightarrow> w | Some w' \<Rightarrow> w')"

fun run :: "options \<Rightarrow> session \<Rightarrow> event list \<Rightarrow> session" where
  "run cfg w [] = w"
| "run cfg w (e # es) = run cfg (after cfg w e) es"

section \<open>The lookup store\<close>

type_synonym 'p store = "string \<rightharpoonup> 'p"

definition UnknownNamespace :: "string \<Rightarrow> string \<Rightarrow> js_error" where
  "UnknownNamespace namespace loc =
     new_Error (''Unknown namespace '' @ namespace @ '' in '' @ loc)"

text \<open>
  \<^verbatim>\<open>usePolyglot(namespace = 'common')\<close>, with the store and locale of the context. The
  argument is \<open>None\<close> when the caller passes none (or \<^verbatim>\<open>undefined\<close>). The store holds
  objects, which are truthy, so \<^verbatim>\<open>!store[id]\<close> is the absence of the key.
\<close>

definition usePolyglot :: "'p store \<Rightarrow> string \<Rightarrow> string option \<Rightarrow> js_error + 'p" where
  "usePolyglot store loc arg =
     (let namespace = (case arg of None \<Rightarrow> ''common'' | Some n \<Rightarrow> n) in
      case store (cache_id loc namespace) of
        None \<Rightarrow> Inl (UnknownNamespace namespace loc)
      | Some polyglot \<Rightarrow> Inr polyglot)"

text \<open>\<^verbatim>\<open>namespace: string | string[]\<close> and \<^verbatim>\<open>Array.isArray(namespace) ? namespace : [namespace]\<close>.\<close>

datatype namespaces = One string | Many "string list"

fun namespace_list :: "namespaces \<Rightarrow> string list" where
  "namespace_list (One n) = [n]"
| "namespace_list (Many ns) = ns"

text \<open>\<^verbatim>\<open>nextLocale || locale\<close>.\<close>

definition next_or :: "string option \<Rightarrow> string \<Rightarrow> string" where
  "next_or nextLocale loc =
     (case nextLocale of None \<Rightarrow> loc | Some l \<Rightarrow> if falsy (Some l) then loc else l)"

text \<open>
  Modelled from the spec: \<^verbatim>\<open>initiatePolyglot\<close> is imported from \<^verbatim>\<open>./common\<close>, which is
  not among the sources. Its results are the entries \<^verbatim>\<open>Object.fromEntries\<close> takes; the spec
  has a lookup entry "keyed by locale+namespace", built by an external factory whose
  result is opaque, here the parameter \<open>build\<close>.
\<close>

definition initiatePolyglot ::
  "(string \<Rightarrow> string \<Rightarrow> json \<Rightarrow> 'p) \<Rightarrow> string \<Rightarrow> string \<Rightarrow> json \<Rightarrow> string \<times> 'p" where
  "initiatePolyglot build loc namespace phrase_set =
     (cache_id loc namespace, build loc namespace phrase_set)"

text \<open>\<^verbatim>\<open>Object.fromEntries\<close>: a later entry with the same key wins.\<close>

definition fromEntries :: "(string \<times> 'p) list \<Rightarrow> 'p store" where
  "fromEntries es = foldl (\<lambda>m kv. m(fst kv \<mapsto> snd kv)) Map.empty es"

text \<open>The updater \<^verbatim>\<open>(current) => ({ ...current, ...more })\<close> of \<^verbatim>\<open>loadPhrases\<close>.\<close>

definition merge :: "'p store \<Rightarrow> 'p store \<Rightarrow> 'p store" where
  "merge current more' = (\<lambda>k. case more' k of None \<Rightarrow> current k | Some v \<Rightarrow> Some v)"

text \<open>
  \<^verbatim>\<open>loadPhrases\<close> once every \<^verbatim>\<open>load\<close> of its \<^verbatim>\<open>Promise.all\<close> has fulfilled, \<open>loaded\<close>
  giving the phrase set of each namespace: the store after \<^verbatim>\<open>updateStore\<close>.
\<close>

definition loadPhrases ::
  "(string \<Rightarrow> string \<Rightarrow> json \<Rightarrow> 'p) \<Rightarrow> string \<Rightarrow> namespaces \<Rightarrow> string option \<Rightarrow>
   (string \<Rightarrow> json) \<Rightarrow> 'p store \<Rightarrow> 'p store" where
  "loadPhrases build loc namespace nextLocale loaded current =
     merge current
       (fromEntries
          (map (\<lambda>ns. initiatePolyglot build (next_or nextLocale loc) ns (loaded ns))
               (namespace_list namespace)))"

section \<open>The patched route hooks of one navigation tick\<close>

text \<open>
  What \<^verbatim>\<open>preloadTranslations\<close> returns for the arguments of a hook, and the
  destructuring \<^verbatim>\<open>{ locale, namespaces = routeNamespaces[route.id] } = (...) || {}\<close>;
  \<^verbatim>\<open>routeNamespaces\<close> is a plain object too.
\<close>

record preload =
  pre_locale :: "string option"
  pre_namespaces :: "namespaces option"

record 'a hook_context =
  preloadTranslations :: "('a \<Rightarrow> preload option) option"
  routeNamespaces :: "string \<rightharpoonup> namespaces"

definition requested ::
  "'a hook_context \<Rightarrow> string \<Rightarrow> 'a \<Rightarrow> string option \<times> namespaces property" where
  "requested ctx route_id args =
     (let r = (case preloadTranslations ctx of
                 None \<Rightarrow> \<lparr>pre_locale = None, pre_namespaces = None\<rparr>
               | Some f \<Rightarrow>
                   (case f args of
                      None \<Rightarrow> \<lparr>pre_locale = None, pre_namespaces = None\<rparr>
                    | Some r \<Rightarrow> r))
      in (pre_locale r,
          case pre_namespaces r of
            None \<Rightarrow> read_property (routeNamespaces ctx) route_id
          | Some n \<Rightarrow> Own n))"

text \<open>
  The test \<^verbatim>\<open>namespaces ? ... : undefined\<close>: an array is truthy, also when empty, and so
  is an inherited property.
\<close>

fun truthy_namespaces :: "namespaces property \<Rightarrow> bool" where
  "truthy_namespaces Undefined = False"
| "truthy_namespaces (Own (One n)) = (n \<noteq> [])"
| "truthy_namespaces (Own (Many ns)) = True"
| "truthy_namespaces (Inherited b) = True"

text \<open>
  One invocation of a patched \<^verbatim>\<open>loader\<close> or \<^verbatim>\<open>action\<close>: the locale it asks for, its
  \<^verbatim>\<open>promisedPhrases\<close> (\<open>None\<close> for \<^verbatim>\<open>undefined\<close>), the promise of \<^verbatim>\<open>original(args)\<close>,
  the promise the wrapped hook itself returned, and the locale of its \<^verbatim>\<open>.then\<close>
  callback while that callback waits on \<^verbatim>\<open>allPhrasesLoaded\<close> to call \<^verbatim>\<open>setLocale\<close>.
\<close>

record 'r invocation =
  locale_wanted :: "string option"
  promisedPhrases :: "unit promise option"
  original :: "'r promise"
  wrapped :: "'r promise"
  commit_waiting :: "string option"

text \<open>
  The tick: the shared flag \<^verbatim>\<open>ref.current\<close>, the promises pushed to the batch (as the
  numbers of their invocations, in the order pushed), whether the tick has ended, the
  invocations, the calls of \<^verbatim>\<open>setLocale\<close> so far (each with the number of the invocation
  whose callback made it) and the calls of \<^verbatim>\<open>console.error\<close> so far.
\<close>

record 'r tick =
  ref_current :: bool
  batch :: "nat list"
  ended :: bool
  hooks :: "'r invocation list"
  setLocale_calls :: "(nat \<times> string) list"
  console_errors :: "js_error list"

definition fresh_tick :: "'r tick" where
  "fresh_tick = \<lparr>ref_current = False, batch = [], ended = False, hooks = [],
                 setLocale_calls = [], console_errors = []\<rparr>"

text \<open>
  Modelled from the spec: the batcher is imported from \<^verbatim>\<open>ichschwoer/batch-resolve\<close>,
  which is not among the sources. The spec: creating a batch yields a register function
  and a shared flag, initially false; register "accumulates every non-undefined promise
  passed to it during the tick"; a batch is "created at the start of a tick" and a new
  tick has a fresh one; and a commit "happens only after every load registered in that
  tick has settled (success or failure)". So the promise that \<^verbatim>\<open>batch.push\<close> returns is one
  aggregate of the whole tick: it does not settle before the tick has ended and every
  promise pushed during the tick has settled. Whether it then fulfils also when one of
  them was rejected, the sources leave open (the spec has it fulfil, the hook attaches
  \<^verbatim>\<open>.catch(noop)\<close> to it): a callback on its fulfilment is a step that may happen then and
  need not.
\<close>

definition push :: "nat option \<Rightarrow> nat list \<Rightarrow> nat list" where
  "push promise b = (case promise of None \<Rightarrow> b | Some h \<Rightarrow> b @ [h])"

fun is_settled :: "'a promise \<Rightarrow> bool" where
  "is_settled Pending = False"
| "is_settled (Fulfilled v) = True"
| "is_settled (Rejected err) = True"

definition load_settled :: "'r tick \<Rightarrow> nat \<Rightarrow> bool" where
  "load_settled t h =
     (case lookup (hooks t) h of
        None \<Rightarrow> False
      | Some hook \<Rightarrow>
          (case promisedPhrases hook of None \<Rightarrow> True | Some p \<Rightarrow> is_settled p))"

definition aggregate_settled :: "'r tick \<Rightarrow> bool" where
  "aggregate_settled t = (ended t \<and> list_all (load_settled t) (batch t))"

text \<open>The wrapped hook from its call to \<^verbatim>\<open>await Promise.all([...])\<close>.\<close>

definition invoke :: "'a hook_context \<Rightarrow> string \<Rightarrow> 'a \<Rightarrow> 'r tick \<Rightarrow> 'r tick" where
  "invoke ctx route_id args t =
     (let (loc, namespaces) = requested ctx route_id args;
          phrases_promise = (if truthy_namespaces namespaces then Some Pending else None)
      in t\<lparr>batch :=
             push (if truthy_namespaces namespaces then Some (length (hooks t)) else None)
                  (batch t),
           hooks := hooks t @
             [\<lparr>locale_wanted = loc, promisedPhrases = phrases_promise,
               original = Pending, wrapped = Pending, commit_waiting = None\<rparr>]\<rparr>)"

text \<open>
  \<^verbatim>\<open>loadPhrases\<close> settles, and the \<^verbatim>\<open>.catch\<close> handler of the hook runs on a rejection:
  nothing for an \<^verbatim>\<open>AbortError\<close>, \<^verbatim>\<open>console.error(err)\<close> otherwise.
\<close>

definition phrases_settle :: "nat \<Rightarrow> js_error option \<Rightarrow> 'r tick \<Rightarrow> 'r tick option" where
  "phrases_settle h result t =
     (case lookup (hooks t) h of
        None \<Rightarrow> None
      | Some hook \<Rightarrow>
          if promisedPhrases hook \<noteq> Some Pending then None
          else
            (case result of
               None \<Rightarrow>
                 Some (t\<lparr>hooks := (hooks t)[h := hook\<lparr>promisedPhrases := Some (Fulfilled ())\<rparr>]\<rparr>)
             | Some err \<Rightarrow>
                 Some (t\<lparr>hooks := (hooks t)[h := hook\<lparr>promisedPhrases := Some (Rejected err)\<rparr>],
                         console_errors :=
                           (if is_abort err then console_errors t
                            else console_errors t @ [err])\<rparr>)))"

definition original_settle :: "nat \<Rightarrow> js_error + 'r \<Rightarrow> 'r tick \<Rightarrow> 'r tick option" where
  "original_settle h result t =
     (case lookup (hooks t) h of
        None \<Rightarrow> None
      | Some hook \<Rightarrow>
          if original hook \<noteq> Pending then None
          else
            Some (t\<lparr>hooks := (hooks t)
                     [h := hook\<lparr>original := (case result of
                                               Inl err \<Rightarrow> Rejected err
                                             | Inr res \<Rightarrow> Fulfilled res)\<rparr>]\<rparr>))"

text \<open>
  The wrapped hook after \<^verbatim>\<open>await Promise.all([original(args), promisedPhrases?.catch(...)])\<close>:
  the second promise never rejects, so the await throws what \<^verbatim>\<open>original\<close> rejected with,
  or continues once \<^verbatim>\<open>original\<close> has fulfilled and \<^verbatim>\<open>promisedPhrases\<close> has settled.
\<close>

definition continue :: "nat \<Rightarrow> 'r tick \<Rightarrow> 'r tick option" where
  "continue h t =
     (case lookup (hooks t) h of
        None \<Rightarrow> None
      | Some hook \<Rightarrow>
          if wrapped hook \<noteq> Pending then None
          else
            (case original hook of
               Pending \<Rightarrow> None
             | Rejected err \<Rightarrow> Some (t\<lparr>hooks := (hooks t)[h := hook\<lparr>wrapped := Rejected err\<rparr>]\<rparr>)
             | Fulfilled res \<Rightarrow>
                 if \<not> load_settled t h then None
                 else if \<not> ref_current t \<and> \<not> falsy (locale_wanted hook)
                 then Some (t\<lparr>ref_current := True,
                              hooks := (hooks t)
                                [h := hook\<lparr>wrapped := Fulfilled res,
                                     commit_waiting := locale_wanted hook\<rparr>]\<rparr>)
                 else Some (t\<lparr>hooks := (hooks t)[h := hook\<lparr>wrapped := Fulfilled res\<rparr>]\<rparr>)))"

text \<open>The callback \<^verbatim>\<open>() => { setLocale(locale) }\<close>, once \<^verbatim>\<open>allPhrasesLoaded\<close> has fulfilled.\<close>

definition all_phrases_loaded :: "nat \<Rightarrow> 'r tick \<Rightarrow> 'r tick option" where
  "all_phrases_loaded h t =
     (case lookup (hooks t) h of
        None \<Rightarrow> None
      | Some hook \<Rightarrow>
          (case commit_waiting hook of
             None \<Rightarrow> None
           | Some loc \<Rightarrow>
               if \<not> aggregate_settled t then None
               else
                 Some (t\<lparr>hooks := (hooks t)[h := hook\<lparr>commit_waiting := None\<rparr>],
                         setLocale_calls := setLocale_calls t @ [(h, loc)]\<rparr>)))"

text \<open>
  The steps of a tick. A hook is invoked during the tick: an invocation after its end
  belongs to another tick, with a batch and a flag of its own. The tick ends once.
\<close>

datatype ('a, 'r) hook_event =
    Invoke string 'a
  | TickEnds
  | PhrasesSettle nat "js_error option"
  | OriginalSettle nat "js_error + 'r"
  | Continue nat
  | AllPhrasesLoaded nat

fun hook_step :: "'a hook_context \<Rightarrow> 'r tick \<Rightarrow> ('a, 'r) hook_event \<Rightarrow> 'r tick option" where
  "hook_step ctx t (Invoke route_id args) =
     (if ended t then None else Some (invoke ctx route_id args t))"
| "hook_step ctx t TickEnds = (if ended t then None else Some (t\<lparr>ended := True\<rparr>))"
| "hook_step ctx t (PhrasesSettle h result) = phrases_settle h result t"
| "hook_step ctx t (OriginalSettle h result) = original_settle h result t"
| "hook_step ctx t (Continue h) = continue h t"
| "hook_step ctx t (AllPhrasesLoaded h) = all_phrases_loaded h t"

definition hook_after :: "'a hook_context \<Rightarrow> 'r tick \<Rightarrow> ('a, 'r) hook_event \<Rightarrow> 'r tick" where
  "hook_after ctx t e = (case hook_step ctx t e of None \<Rightarrow> t | Some t' \<Rightarrow> t')"

fun hook_run :: "'a hook_context \<Rightarrow> 'r tick \<Rightarrow> ('a, 'r) hook_event list \<Rightarrow> 'r tick" where
  "hook_run ctx t [] = t"
| "hook_run ctx t (e # es) = hook_run ctx (hook_after ctx t e) es"

section \<open>Invariants and examples\<close>

fun is_rejected :: "'a promise \<Rightarrow> bool" where
  "is_rejected (Rejected err) = True"
| "is_rejected p = False"

text \<open>
  A cache entry is sound when it holds a promise that exists, was created for this key,
  and has not been rejected.
\<close>

definition index_entry_sound :: "session \<Rightarrow> string \<Rightarrow> bool" where
  "index_entry_sound w k =
     (case indexes w k of
        None \<Rightarrow> True
      | Some p \<Rightarrow>
          (case lookup (index_promises w) p of
             None \<Rightarrow> False
           | Some job \<Rightarrow> ix_locale job = k \<and> \<not> is_rejected (ix_state job)))"

definition phrase_entry_sound :: "session \<Rightarrow> string \<Rightarrow> bool" where
  "phrase_entry_sound w k =
     (case phrases w k of
        None \<Rightarrow> True
      | Some p \<Rightarrow>
          (case lookup (phrase_promises w) p of
             None \<Rightarrow> False
           | Some job \<Rightarrow>
               cache_id (ph_locale job) (ph_namespace job) = k \<and> \<not> is_rejected (ph_state job)))"

text \<open>
  The commits of a tick: the calls of \<^verbatim>\<open>setLocale\<close> made, and the callbacks that wait to
  make one.
\<close>

definition waiting :: "'r invocation \<Rightarrow> nat" where
  "waiting hook = (case commit_waiting hook of None \<Rightarrow> 0 | Some loc \<Rightarrow> 1)"

definition commits :: "'r tick \<Rightarrow> nat" where
  "commits t = length (setLocale_calls t) + sum_list (map waiting (hooks t))"

definition one_commit :: "'r tick \<Rightarrow> bool" where
  "one_commit t = (commits t \<le> (if ref_current t then 1 else 0))"

text \<open>
  An example of the runtime: the inherited \<^verbatim>\<open>constructor\<close> is the function \<^verbatim>\<open>Object\<close>, the
  other inherited properties are functions of their own name; of their properties only
  \<^verbatim>\<open>name\<close> is given, every other one reads as falsy.
\<close>

definition example_text :: "string \<Rightarrow> string" where
  "example_text b =
     ''function '' @ (if b = ''constructor'' then ''Object'' else b) @ ''() { [native code] }''"

definition example_member :: "string \<Rightarrow> string \<Rightarrow> string option" where
  "example_member b name =
     (if name = ''name'' then Some (if b = ''constructor'' then ''Object'' else b) else None)"

text \<open>
  Scenario A of the spec, with a second locale: the manifest, the index (with one more
  entry, whose file is the empty string) and a phrase set. A second manifest configures
  \<^verbatim>\<open>en-US\<close> only.
\<close>

definition example_options :: options where
  "example_options =
     \<lparr>manifest = [''en'' \<mapsto> ''idx-en.json'', ''en-US'' \<mapsto> ''idx-us.json''],
      baseUrl = ''/i18n'', builtin_text = example_text, builtin_member = example_member\<rparr>"

definition regional_options :: options where
  "regional_options =
     \<lparr>manifest = [''en-US'' \<mapsto> ''idx-us.json''], baseUrl = ''/i18n'',
      builtin_text = example_text, builtin_member = example_member\<rparr>"

definition example_index :: json where
  "example_index = JObj [(''common'', JStr ''common-en.json''), (''empty'', JStr [])]"

definition example_phrases :: json where
  "example_phrases = JObj [(''greeting'', JStr ''Hello'')]"

definition ok :: "json \<Rightarrow> response" where
  "ok j = Response 200 (Parsed j)"

definition aborted :: js_error where
  "aborted = JsError ''AbortError'' ''The user aborted a request.''"

text \<open>
  The wrapped hook has settled only as \<^verbatim>\<open>original\<close> has: fulfilled with its result, or
  rejected with its error.
\<close>

definition wrapped_as_original :: "'r invocation \<Rightarrow> bool" where
  "wrapped_as_original hook =
     (case wrapped hook of
        Pending \<Rightarrow> True
      | Fulfilled res \<Rightarrow> original hook = Fulfilled res
      | Rejected err \<Rightarrow> original hook = Rejected err)"

text \<open>A callback that waits to commit, waits with the locale its invocation asked for.\<close>

definition hook_sound :: "'r invocation \<Rightarrow> bool" where
  "hook_sound hook =
     (case commit_waiting hook of None \<Rightarrow> True | Some loc \<Rightarrow> locale_wanted hook = Some loc)"

text \<open>The load of an invocation, if it has one, has settled.\<close>

definition load_done :: "'r invocation \<Rightarrow> bool" where
  "load_done hook = (case promisedPhrases hook of None \<Rightarrow> True | Some p \<Rightarrow> is_settled p)"

text \<open>Every invocation that has a load has it in the batch.\<close>

definition registered :: "'r tick \<Rightarrow> bool" where
  "registered t =
     list_all (\<lambda>h. promisedPhrases (hooks t ! h) = None \<or> h \<in> set (batch t))
       [0..<length (hooks t)]"

text \<open>
  A call of \<^verbatim>\<open>setLocale\<close> is in order when the invocation that made it asked for this
  locale, the tick has ended and every promise of the batch has settled.
\<close>

definition commit_in_order :: "'r tick \<Rightarrow> nat \<times> string \<Rightarrow> bool" where
  "commit_in_order t c =
     (case lookup (hooks t) (fst c) of
        None \<Rightarrow> False
      | Some hook \<Rightarrow> locale_wanted hook = Some (snd c) \<and> aggregate_settled t)"

definition tick_sound :: "'r tick \<Rightarrow> bool" where
  "tick_sound t =
     (list_all hook_sound (hooks t) \<and> registered t
      \<and> list_all (commit_in_order t) (setLocale_calls t))"

text \<open>
  Scenario D of the spec: a parent and a child route, each with a namespace of its own,
  and a \<^verbatim>\<open>preloadTranslations\<close> that asks for the locale \<^verbatim>\<open>es\<close>.
\<close>

definition example_context :: "unit hook_context" where
  "example_context =
     \<lparr>preloadTranslations = Some (\<lambda>args. Some \<lparr>pre_locale = Some ''es'', pre_namespaces = None\<rparr>),
      routeNamespaces = [''root'' \<mapsto> One ''common'', ''routes/child'' \<mapsto> One ''home'']\<rparr>"


section \<open>Cache keys\<close>

lemma leading_digit_examples [simp]:
  "leading_digit 200 = 2" "leading_digit 404 = 4"
  by (simp_all add: leading_digit.simps)

lemmas loader_defs =
  cache_id_def example_options_def regional_options_def example_index_def example_phrases_def
  example_text_def example_member_def object_prototype_def read_property_def text_of_def
  finish_def index_file_def
  ok_def aborted_def initial_def after_def load_def settle_index_def settle_phrases_def
  resume_def lookup_def read_index_def read_phrases_def resource_url_def new_Error_def
  is_abort_def index_rejection_def phrase_rejection_def IndexLoadFailed_def
  PhraseLoadFailed_def MissingNamespace_def MissingLocaleConfig_def
  index_entry_sound_def phrase_entry_sound_def

text \<open>
  C9. The key \<^verbatim>\<open>`${locale}-${namespace}`\<close> is not injective: the pairs
  (\<^verbatim>\<open>en-US\<close>, \<^verbatim>\<open>common\<close>) and (\<^verbatim>\<open>en\<close>, \<^verbatim>\<open>US-common\<close>) are distinct and have the same key.
  So a \<^verbatim>\<open>load\<close> of the second pair, after the first has been loaded, returns the promise
  made for the first pair and issues no GET of its own (here \<^verbatim>\<open>en\<close> is not even in the
  manifest); and \<^verbatim>\<open>usePolyglot\<close> for the second pair returns the store entry built for the
  first.
\<close>

theorem cache_id_not_injective:
  "(''en-US'', ''common'') \<noteq> (''en'', ''US-common'')
   \<and> cache_id ''en-US'' ''common'' = cache_id ''en'' ''US-common''
   \<and> (\<lambda>w. (calls w, map ph_locale (phrase_promises w), map ph_namespace (phrase_promises w),
             map ix_url (index_promises w)))
        (run regional_options initial
          [Load ''en-US'' ''common'' None, IndexResponse 0 (ok example_index), Resume 0,
           PhraseResponse 0 (ok example_phrases), Load ''en'' ''US-common'' None])
      = ([Returned 0, Returned 0], [''en-US''], [''common''], [''/i18n/en-US/idx-us.json''])
   \<and> usePolyglot (fromEntries [initiatePolyglot build ''en-US'' ''common'' phrase_set])
         ''en'' (Some ''US-common'') = Inr (build ''en-US'' ''common'' phrase_set)"
  by (simp add: loader_defs usePolyglot_def fromEntries_def initiatePolyglot_def)

section \<open>Deduplication\<close>

text \<open>
  C1. Two calls of \<^verbatim>\<open>load\<close> for (\<^verbatim>\<open>en\<close>, \<^verbatim>\<open>common\<close>) are issued before the index has
  arrived. One GET is made for the index, but when the index arrives each call continues
  after \<^verbatim>\<open>await indexes[locale]\<close> and creates a phrase promise of its own: two GETs of
  the same phrase file are made, the two calls return different promises, and the cache
  keeps the second.
\<close>

theorem concurrent_loads_fetch_phrases_twice:
  "(\<lambda>w. (map ix_url (index_promises w), map ph_url (phrase_promises w), calls w,
          phrases w (cache_id ''en'' ''common'')))
     (run example_options initial
        [Load ''en'' ''common'' None, Load ''en'' ''common'' None,
         IndexResponse 0 (ok example_index), Resume 0, Resume 1])
   = ([''/i18n/en/idx-en.json''],
      [''/i18n/en/common-en.json'', ''/i18n/en/common-en.json''],
      [Returned 0, Returned 1], Some 1)"
  by (simp add: loader_defs)

section \<open>The lookup store\<close>

text \<open>
  C10. With no namespace argument \<^verbatim>\<open>usePolyglot\<close> looks up \<^verbatim>\<open>common\<close>; and when the store
  has no entry under the exact key of the locale and namespace it throws the
  unknown-namespace error, whatever else the store holds.
\<close>

theorem usePolyglot_default_and_miss:
  "usePolyglot store loc None = usePolyglot store loc (Some ''common'')
   \<and> (store (cache_id loc namespace) = None \<longrightarrow>
        usePolyglot store loc (Some namespace) = Inl (UnknownNamespace namespace loc))"
  by (simp add: usePolyglot_def)

theorem usePolyglot_default_and_miss_witness:
  "usePolyglot [''en-common'' \<mapsto> (1::nat)] ''en'' None = Inr 1
   \<and> usePolyglot [''en-common'' \<mapsto> (1::nat)] ''es'' (Some ''common'')
       = Inl (UnknownNamespace ''common'' ''es'')"
  using usePolyglot_default_and_miss
          [of "[''en-common'' \<mapsto> (1::nat)]" "''en''" "''common''"]
        usePolyglot_default_and_miss
          [of "[''en-common'' \<mapsto> (1::nat)]" "''es''" "''common''"]
  by (simp add: cache_id_def usePolyglot_def)

text \<open>
  C8. The keys of the merged store are those of the store and those of the new entries.
  Merging keeps every key the store had, gives each key of the new entries its new value
  (replacing a prior one), leaves every other key as it was, and merging the same entries
  a second time changes nothing; so for \<^verbatim>\<open>loadPhrases\<close> as a whole.
\<close>

theorem merge_additive_idempotent:
  "dom (merge current m) = dom current \<union> dom m
   \<and> (\<forall>k. current k \<noteq> None \<longrightarrow> merge current m k \<noteq> None)
   \<and> (\<forall>k v. m k = Some v \<longrightarrow> merge current m k = Some v)
   \<and> (\<forall>k. m k = None \<longrightarrow> merge current m k = current k)
   \<and> merge (merge current m) m = merge current m
   \<and> loadPhrases build loc namespace nextLocale loaded
        (loadPhrases build loc namespace nextLocale loaded current)
       = loadPhrases build loc namespace nextLocale loaded current"
  by (auto simp: merge_def loadPhrases_def fun_eq_iff dom_def split: option.splits)

theorem merge_additive_idempotent_witness:
  "merge [''en-common'' \<mapsto> (1::nat), ''en-home'' \<mapsto> 2]
         [''en-common'' \<mapsto> 3, ''es-common'' \<mapsto> 4] ''en-home'' = Some 2
   \<and> merge [''en-common'' \<mapsto> (1::nat), ''en-home'' \<mapsto> 2]
         [''en-common'' \<mapsto> 3, ''es-common'' \<mapsto> 4] ''en-common'' = Some 3
   \<and> merge [''en-common'' \<mapsto> (1::nat), ''en-home'' \<mapsto> 2]
         [''en-common'' \<mapsto> 3, ''es-common'' \<mapsto> 4] ''es-common'' = Some 4"
  using merge_additive_idempotent
          [of "[''en-common'' \<mapsto> (1::nat), ''en-home'' \<mapsto> 2]"
              "[''en-common'' \<mapsto> 3, ''es-common'' \<mapsto> 4]"]
  by (simp add: merge_def)

section \<open>Keys and inherited properties\<close>

lemma cache_id_not_inherited: "cache_id loc ns \<notin> set object_prototype"
proof -
  have "CHR ''-'' \<in> set (cache_id loc ns)"
    by (simp add: cache_id_def)
  moreover have "\<forall>name \<in> set object_prototype. CHR ''-'' \<notin> set name"
    by (simp add: object_prototype_def)
  ultimately show ?thesis by blast
qed

lemma read_property_cache_id:
  "read_property obj (cache_id loc ns)
     = (case obj (cache_id loc ns) of None \<Rightarrow> Undefined | Some v \<Rightarrow> Own v)"
  by (simp add: read_property_def cache_id_not_inherited split: option.splits)

lemma read_property_own: "obj key = Some v \<Longrightarrow> read_property obj key = Own v"
  by (simp add: read_property_def)

lemma read_property_not_inherited:
  "key \<notin> set object_prototype \<Longrightarrow>
   read_property obj key = (case obj key of None \<Rightarrow> Undefined | Some v \<Rightarrow> Own v)"
  by (simp add: read_property_def split: option.splits)

section \<open>No cache entry holds a rejected promise\<close>














lemma index_failure_evicts:
  assumes "settle_index p r w = Some w'" "read_index r = Inl err"
  shows "\<exists>job. lookup (index_promises w) p = Some job \<and> ix_state job = Pending
           \<and> indexes w' = (indexes w)(ix_locale job := None) \<and> phrases w' = phrases w
           \<and> lookup (index_promises w') p
               = Some (job\<lparr>ix_state := Rejected (index_rejection (ix_locale job) err)\<rparr>)"
  using assms
  by (auto simp: settle_index_def lookup_def split: option.splits if_splits)

lemma phrase_failure_evicts:
  assumes "settle_phrases p r w = Some w'" "read_phrases r = Inl err"
  shows "\<exists>job. lookup (phrase_promises w) p = Some job \<and> ph_state job = Pending
           \<and> phrases w' = (phrases w)(cache_id (ph_locale job) (ph_namespace job) := None)
           \<and> indexes w' = indexes w
           \<and> lookup (phrase_promises w') p
               = Some (job\<lparr>ph_state :=
                    Rejected (phrase_rejection (ph_namespace job) (ph_locale job) err)\<rparr>)"
  using assms
  by (auto simp: settle_phrases_def lookup_def split: option.splits if_splits)



lemma load_cached:
  assumes "phrases w (cache_id loc ns) = Some q"
  shows "load cfg loc ns sig w = w\<lparr>calls := calls w @ [Returned q]\<rparr>"
  using assms by (simp add: load_def read_property_cache_id)

lemma load_awaits_index:
  assumes "phrases w (cache_id loc ns) = None" "manifest cfg loc = Some file" "file \<noteq> []"
    "loc \<notin> set object_prototype"
  shows "\<exists>p. calls (load cfg loc ns sig w) = calls w @ [Awaiting loc ns sig (Promised p)]
           \<and> indexes (load cfg loc ns sig w) loc = Some p"
  using assms
  by (cases "indexes w loc")
     (simp_all add: load_def read_property_cache_id read_property_not_inherited)

lemma load_not_configured:
  assumes "manifest cfg loc = None" "loc \<notin> set object_prototype"
  shows "calls (load cfg loc ns sig w) = calls w @
           [case phrases w (cache_id loc ns) of
              Some p \<Rightarrow> Returned p
            | None \<Rightarrow> Threw (MissingLocaleConfig loc)]
         \<and> index_promises (load cfg loc ns sig w) = index_promises w
         \<and> phrase_promises (load cfg loc ns sig w) = phrase_promises w"
  using assms
  by (simp add: load_def read_property_cache_id read_property_not_inherited
        split: option.splits)

lemma index_file_own:
  "map_of index ns = Some file \<Longrightarrow>
   index_file cfg index ns = (if file = [] then None else Some file)"
  by (simp add: index_file_def read_property_def text_of_def)

lemma index_file_none:
  "map_of index ns = None \<Longrightarrow> ns \<notin> set object_prototype \<Longrightarrow>
   index_file cfg index ns = None"
  by (simp add: index_file_def read_property_def)

lemma index_file_inherited:
  "map_of index ns = None \<Longrightarrow> ns \<in> set object_prototype \<Longrightarrow>
   index_file cfg index ns = Some (builtin_text cfg ns)"
  by (simp add: index_file_def read_property_def text_of_def)

lemma resume_fulfilled:
  assumes "lookup (calls w) n = Some (Awaiting loc ns sig (Promised p))"
    "lookup (index_promises w) p = Some job" "ix_state job = Fulfilled index"
  shows "resume cfg n w = Some (finish cfg n loc ns sig (index_file cfg index ns) w)"
  using assms by (simp add: resume_def)


subsection \<open>An index promise is made for a configured locale of its own name\<close>


lemma list_all_update: "list_all P xs \<Longrightarrow> P x \<Longrightarrow> list_all P (xs[i := x])"
  using set_update_subset_insert[of xs i x] by (auto simp: list_all_iff)

lemma lookup_Some: "lookup xs i = Some x \<longleftrightarrow> i < length xs \<and> xs ! i = x"
  by (auto simp: lookup_def)







lemma rejection_distinguished:
  "\<not> is_abort (IndexLoadFailed loc err)" "\<not> is_abort (PhraseLoadFailed ns loc err)"
  by (simp_all add: is_abort_def IndexLoadFailed_def PhraseLoadFailed_def new_Error_def)

lemma load_existing_index_no_get:
  assumes "indexes w loc = Some p"
  shows "index_promises (load cfg loc ns sig w) = index_promises w
         \<and> phrase_promises (load cfg loc ns sig w) = phrase_promises w
         \<and> indexes (load cfg loc ns sig w) = indexes w
         \<and> phrases (load cfg loc ns sig w) = phrases w"
  using assms by (simp add: load_def read_property_def split: property.splits option.splits)

lemma resume_rejected:
  assumes "lookup (calls w) n = Some (Awaiting loc ns sig (Promised p))"
    "lookup (index_promises w) p = Some job" "ix_state job = Rejected err"
  shows "\<exists>w'. resume cfg n w = Some w' \<and> lookup (calls w') n = Some (Threw err)
           \<and> indexes w' = indexes w \<and> phrases w' = phrases w"
  using assms by (simp add: resume_def lookup_def split: if_splits)

section \<open>Eviction of failed entries\<close>



section \<open>Missing configuration and missing namespaces\<close>

text \<open>
  C6. A locale with no entry in the manifest does not always make \<^verbatim>\<open>load\<close> throw the
  missing-index error: \<^verbatim>\<open>constructor\<close> is not in the manifest and nothing is cached, but
  \<^verbatim>\<open>manifest[locale]\<close> and \<^verbatim>\<open>indexes[locale]\<close> both give the inherited function, so the call
  passes both tests, awaits that function, and throws the missing-namespace error for
  \<^verbatim>\<open>common\<close> instead, without any GET. (For a locale that is not the name of an inherited
  property the claim holds: \<open>load_not_configured\<close>.)
\<close>

theorem inherited_locale_passes_manifest_test:
  "manifest example_options ''constructor'' = None
   \<and> phrases initial (cache_id ''constructor'' ''common'') = None
   \<and> calls (load example_options ''constructor'' ''common'' None initial)
       = [Awaiting ''constructor'' ''common'' None (Builtin ''constructor'')]
   \<and> (\<lambda>w. (calls w, index_promises w, phrase_promises w))
        (run example_options initial [Load ''constructor'' ''common'' None, Resume 0])
       = ([Threw (MissingNamespace ''common'' ''constructor'')], [], [])"
  by (simp add: loader_defs)

text \<open>
  C5, as amended. \<^verbatim>\<open>load\<close> first returns the phrase promise cached under the key of the
  locale and namespace, if there is one, whatever the index holds. Otherwise, for a
  configured locale, it awaits the index promise of the locale; and when that index is
  fulfilled and the namespace is not the name of an inherited property, the call
  continues and throws the missing-namespace error exactly when \<^verbatim>\<open>index[namespace]\<close> is
  falsy: the index has no entry for the namespace, or the entry is the empty string. In
  that case it creates no promise and changes no cache, so no phrase GET is issued.
\<close>

theorem missing_namespace_iff_falsy:
  "(phrases w (cache_id loc ns) = Some q \<longrightarrow>
      load cfg loc ns sig w = w\<lparr>calls := calls w @ [Returned q]\<rparr>)
   \<and> (phrases w (cache_id loc ns) = None \<and> manifest cfg loc = Some f \<and> f \<noteq> []
        \<and> loc \<notin> set object_prototype \<longrightarrow>
      (\<exists>p. calls (load cfg loc ns sig w) = calls w @ [Awaiting loc ns sig (Promised p)]
         \<and> indexes (load cfg loc ns sig w) loc = Some p))
   \<and> (lookup (calls w) n = Some (Awaiting loc ns sig (Promised i))
        \<and> lookup (index_promises w) i = Some job \<and> ix_state job = Fulfilled index
        \<and> ns \<notin> set object_prototype \<longrightarrow>
      (\<exists>w'. resume cfg n w = Some w'
         \<and> (lookup (calls w') n = Some (Threw (MissingNamespace ns loc))
              \<longleftrightarrow> map_of index ns = None \<or> map_of index ns = Some [])
         \<and> (map_of index ns = None \<or> map_of index ns = Some [] \<longrightarrow>
              phrase_promises w' = phrase_promises w \<and> index_promises w' = index_promises w
              \<and> phrases w' = phrases w \<and> indexes w' = indexes w)))"
proof -
  have a: "phrases w (cache_id loc ns) = Some q \<longrightarrow>
      load cfg loc ns sig w = w\<lparr>calls := calls w @ [Returned q]\<rparr>"
    using load_cached[of w loc ns q cfg sig] by blast
  have b: "phrases w (cache_id loc ns) = None \<and> manifest cfg loc = Some f \<and> f \<noteq> []
        \<and> loc \<notin> set object_prototype \<longrightarrow>
      (\<exists>p. calls (load cfg loc ns sig w) = calls w @ [Awaiting loc ns sig (Promised p)]
         \<and> indexes (load cfg loc ns sig w) loc = Some p)"
    using load_awaits_index[of w loc ns cfg f sig] by blast
  have c: "lookup (calls w) n = Some (Awaiting loc ns sig (Promised i))
        \<and> lookup (index_promises w) i = Some job \<and> ix_state job = Fulfilled index
        \<and> ns \<notin> set object_prototype \<longrightarrow>
      (\<exists>w'. resume cfg n w = Some w'
         \<and> (lookup (calls w') n = Some (Threw (MissingNamespace ns loc))
              \<longleftrightarrow> map_of index ns = None \<or> map_of index ns = Some [])
         \<and> (map_of index ns = None \<or> map_of index ns = Some [] \<longrightarrow>
              phrase_promises w' = phrase_promises w \<and> index_promises w' = index_promises w
              \<and> phrases w' = phrases w \<and> indexes w' = indexes w))"
  proof (intro impI, elim conjE)
    assume call: "lookup (calls w) n = Some (Awaiting loc ns sig (Promised i))"
      and job: "lookup (index_promises w) i = Some job" "ix_state job = Fulfilled index"
      and own: "ns \<notin> set object_prototype"
    have r: "resume cfg n w = Some (finish cfg n loc ns sig (index_file cfg index ns) w)"
      using call job by (rule resume_fulfilled)
    from call have n: "n < length (calls w)"
      by (simp add: lookup_Some)
    show "\<exists>w'. resume cfg n w = Some w'
         \<and> (lookup (calls w') n = Some (Threw (MissingNamespace ns loc))
              \<longleftrightarrow> map_of index ns = None \<or> map_of index ns = Some [])
         \<and> (map_of index ns = None \<or> map_of index ns = Some [] \<longrightarrow>
              phrase_promises w' = phrase_promises w \<and> index_promises w' = index_promises w
              \<and> phrases w' = phrases w \<and> indexes w' = indexes w)"
    proof (cases "map_of index ns")
      case None
      with own have "index_file cfg index ns = None"
        by (simp add: index_file_none)
      with r n None show ?thesis
        by (simp add: finish_def lookup_def)
    next
      case (Some entry)
      then have "index_file cfg index ns = (if entry = [] then None else Some entry)"
        by (rule index_file_own)
      with r n Some show ?thesis
        by (simp add: finish_def lookup_def)
    qed
  qed
  from a b c show ?thesis by blast
qed

theorem missing_namespace_iff_falsy_witness:
  "calls (load example_options ''en'' ''missing'' None initial)
     = [Awaiting ''en'' ''missing'' None (Promised 0)]
   \<and> (\<exists>w'. resume example_options 0
           (run example_options initial
              [Load ''en'' ''missing'' None, IndexResponse 0 (ok example_index)]) = Some w'
         \<and> lookup (calls w') 0 = Some (Threw (MissingNamespace ''missing'' ''en''))
         \<and> phrase_promises w' = [])
   \<and> calls (run example_options initial
         [Load ''en'' ''common'' None, IndexResponse 0 (ok example_index), Resume 0,
          Load ''en'' ''common'' None])
       = [Returned 0, Returned 0]"
  using
    missing_namespace_iff_falsy
      [where w = "run example_options initial
                    [Load ''en'' ''missing'' None, IndexResponse 0 (ok example_index)]"
         and n = 0 and loc = "''en''" and ns = "''missing''" and sig = None and i = 0
         and job = "\<lparr>ix_locale = ''en'', ix_url = ''/i18n/en/idx-en.json'', ix_signal = None,
                      ix_state = Fulfilled [(''common'', ''common-en.json''), (''empty'', [])]\<rparr>"
         and index = "[(''common'', ''common-en.json''), (''empty'', [])]"
         and cfg = example_options]
    missing_namespace_iff_falsy
      [where w = initial and loc = "''en''" and ns = "''missing''" and sig = None
         and cfg = example_options and f = "''idx-en.json''"]
    missing_namespace_iff_falsy
      [where w = "run example_options initial
                    [Load ''en'' ''common'' None, IndexResponse 0 (ok example_index), Resume 0]"
         and loc = "''en''" and ns = "''common''" and sig = None and q = 0
         and cfg = example_options]
  by (simp add: loader_defs)

text \<open>
  C5 as stated fails, three ways. The index \<^verbatim>\<open>{"common": "common-en.json", "empty": ""}\<close>
  is a record of strings and has an entry for \<^verbatim>\<open>empty\<close>, yet \<^verbatim>\<open>load\<close> of that namespace
  throws the missing-namespace error. The index of \<^verbatim>\<open>en\<close> has loaded and has no entry for
  \<^verbatim>\<open>US-common\<close>, yet \<^verbatim>\<open>load\<close> of (\<^verbatim>\<open>en\<close>, \<^verbatim>\<open>US-common\<close>) returns the promise cached for
  (\<^verbatim>\<open>en-US\<close>, \<^verbatim>\<open>common\<close>), whose key is the same. And the index has no entry for
  \<^verbatim>\<open>constructor\<close>, yet \<^verbatim>\<open>load\<close> of that namespace finds the inherited function, throws
  nothing and issues a phrase GET.
\<close>

theorem empty_file_is_missing_namespace:
  "isRecordOfStrings example_index
   \<and> map_of (strings_of example_index) ''empty'' = Some []
   \<and> (\<lambda>w. (calls w, map ix_state (index_promises w), phrase_promises w))
        (run example_options initial
          [Load ''en'' ''empty'' None, IndexResponse 0 (ok example_index), Resume 0])
       = ([Threw (MissingNamespace ''empty'' ''en'')],
          [Fulfilled [(''common'', ''common-en.json''), (''empty'', [])]], [])
   \<and> map_of (strings_of example_index) ''US-common'' = None
   \<and> (\<lambda>w. (calls w, map ix_locale (index_promises w), map ix_state (index_promises w)))
        (run example_options initial
          [Load ''en-US'' ''common'' None, IndexResponse 0 (ok example_index), Resume 0,
           Load ''en'' ''home'' None, IndexResponse 1 (ok example_index), Resume 1,
           Load ''en'' ''US-common'' None])
       = ([Returned 0, Threw (MissingNamespace ''home'' ''en''), Returned 0],
          [''en-US'', ''en''],
          [Fulfilled [(''common'', ''common-en.json''), (''empty'', [])],
           Fulfilled [(''common'', ''common-en.json''), (''empty'', [])]])
   \<and> map_of (strings_of example_index) ''constructor'' = None
   \<and> (\<lambda>w. (calls w, map ph_url (phrase_promises w)))
        (run example_options initial
          [Load ''en'' ''constructor'' None, IndexResponse 0 (ok example_index), Resume 0])
       = ([Returned 0], [''/i18n/en/function Object() { [native code] }''])"
  by (simp add: loader_defs)

section \<open>Cancellation\<close>

text \<open>
  C3, as amended. When the GET behind a cache entry rejects with an \<^verbatim>\<open>AbortError\<close>, the
  executor leaves both cache tables exactly as any other failure of that GET leaves them:
  the entry of its key is removed. The promise is rejected with the \<^verbatim>\<open>AbortError\<close>
  itself, where another failure is wrapped into an error that is not an \<^verbatim>\<open>AbortError\<close>,
  and every call that awaits the rejected index promise throws that same error and
  touches no cache. A call that finds the index entry present issues no GET: the signal
  of a GET is that of the call that created the entry.
\<close>

theorem abort_evicts_like_any_failure:
  "(settle_index p r w = Some wa \<and> read_index r = Inl err \<and> is_abort err
      \<and> settle_index p r' w = Some wb \<and> read_index r' = Inl err' \<longrightarrow>
      indexes wa = indexes wb \<and> phrases wa = phrases wb
      \<and> (\<exists>job. lookup (index_promises w) p = Some job
            \<and> indexes wa (ix_locale job) = None
            \<and> lookup (index_promises wa) p = Some (job\<lparr>ix_state := Rejected err\<rparr>)
            \<and> (\<not> is_abort err' \<longrightarrow>
                 lookup (index_promises wb) p
                   = Some (job\<lparr>ix_state := Rejected (IndexLoadFailed (ix_locale job) err')\<rparr>)
                 \<and> \<not> is_abort (IndexLoadFailed (ix_locale job) err'))))
   \<and> (settle_phrases q r w = Some wa \<and> read_phrases r = Inl err \<and> is_abort err
      \<and> settle_phrases q r' w = Some wb \<and> read_phrases r' = Inl err' \<longrightarrow>
      indexes wa = indexes wb \<and> phrases wa = phrases wb
      \<and> (\<exists>job. lookup (phrase_promises w) q = Some job
            \<and> phrases wa (cache_id (ph_locale job) (ph_namespace job)) = None
            \<and> lookup (phrase_promises wa) q = Some (job\<lparr>ph_state := Rejected err\<rparr>)
            \<and> (\<not> is_abort err' \<longrightarrow>
                 lookup (phrase_promises wb) q
                   = Some (job\<lparr>ph_state :=
                        Rejected (PhraseLoadFailed (ph_namespace job) (ph_locale job) err')\<rparr>)
                 \<and> \<not> is_abort (PhraseLoadFailed (ph_namespace job) (ph_locale job) err'))))
   \<and> (lookup (calls w) n = Some (Awaiting loc ns sig (Promised i))
        \<and> lookup (index_promises w) i = Some ijob \<and> ix_state ijob = Rejected err \<longrightarrow>
      (\<exists>w'. resume cfg n w = Some w' \<and> lookup (calls w') n = Some (Threw err)
         \<and> indexes w' = indexes w \<and> phrases w' = phrases w))
   \<and> (indexes w loc = Some i \<longrightarrow>
      index_promises (load cfg loc ns sig w) = index_promises w
      \<and> phrase_promises (load cfg loc ns sig w) = phrase_promises w
      \<and> indexes (load cfg loc ns sig w) = indexes w
      \<and> phrases (load cfg loc ns sig w) = phrases w)"
proof -
  have a: "settle_index p r w = Some wa \<and> read_index r = Inl err \<and> is_abort err
      \<and> settle_index p r' w = Some wb \<and> read_index r' = Inl err' \<longrightarrow>
      indexes wa = indexes wb \<and> phrases wa = phrases wb
      \<and> (\<exists>job. lookup (index_promises w) p = Some job
            \<and> indexes wa (ix_locale job) = None
            \<and> lookup (index_promises wa) p = Some (job\<lparr>ix_state := Rejected err\<rparr>)
            \<and> (\<not> is_abort err' \<longrightarrow>
                 lookup (index_promises wb) p
                   = Some (job\<lparr>ix_state := Rejected (IndexLoadFailed (ix_locale job) err')\<rparr>)
                 \<and> \<not> is_abort (IndexLoadFailed (ix_locale job) err')))"
    using index_failure_evicts[of p r w wa err] index_failure_evicts[of p r' w wb err']
    by (auto simp: index_rejection_def rejection_distinguished)
  have b: "settle_phrases q r w = Some wa \<and> read_phrases r = Inl err \<and> is_abort err
      \<and> settle_phrases q r' w = Some wb \<and> read_phrases r' = Inl err' \<longrightarrow>
      indexes wa = indexes wb \<and> phrases wa = phrases wb
      \<and> (\<exists>job. lookup (phrase_promises w) q = Some job
            \<and> phrases wa (cache_id (ph_locale job) (ph_namespace job)) = None
            \<and> lookup (phrase_promises wa) q = Some (job\<lparr>ph_state := Rejected err\<rparr>)
            \<and> (\<not> is_abort err' \<longrightarrow>
                 lookup (phrase_promises wb) q
                   = Some (job\<lparr>ph_state :=
                        Rejected (PhraseLoadFailed (ph_namespace job) (ph_locale job) err')\<rparr>)
                 \<and> \<not> is_abort (PhraseLoadFailed (ph_namespace job) (ph_locale job) err')))"
    using phrase_failure_evicts[of q r w wa err] phrase_failure_evicts[of q r' w wb err']
    by (auto simp: phrase_rejection_def rejection_distinguished)
  have c: "lookup (calls w) n = Some (Awaiting loc ns sig (Promised i))
        \<and> lookup (index_promises w) i = Some ijob \<and> ix_state ijob = Rejected err \<longrightarrow>
      (\<exists>w'. resume cfg n w = Some w' \<and> lookup (calls w') n = Some (Threw err)
         \<and> indexes w' = indexes w \<and> phrases w' = phrases w)"
    using resume_rejected[of w n loc ns sig i ijob err cfg] by blast
  have d: "indexes w loc = Some i \<longrightarrow>
      index_promises (load cfg loc ns sig w) = index_promises w
      \<and> phrase_promises (load cfg loc ns sig w) = phrase_promises w
      \<and> indexes (load cfg loc ns sig w) = indexes w
      \<and> phrases (load cfg loc ns sig w) = phrases w"
    using load_existing_index_no_get[of w loc i cfg ns sig] by blast
  from a b c d show ?thesis by blast
qed

theorem abort_evicts_like_any_failure_witness:
  "indexes (after example_options
        (run example_options initial [Load ''en'' ''common'' (Some 1)])
        (IndexResponse 0 (NoResponse aborted)))
     = indexes (after example_options
        (run example_options initial [Load ''en'' ''common'' (Some 1)])
        (IndexResponse 0 (Response 404 (Parsed JNull))))
   \<and> map ix_state (index_promises (after example_options
        (run example_options initial [Load ''en'' ''common'' (Some 1)])
        (IndexResponse 0 (NoResponse aborted)))) = [Rejected aborted]
   \<and> map ix_signal (index_promises (load example_options ''en'' ''home'' (Some 2)
        (run example_options initial [Load ''en'' ''common'' (Some 1)]))) = [Some 1]"
  using
    abort_evicts_like_any_failure
      [where p = 0 and r = "NoResponse aborted" and r' = "Response 404 (Parsed JNull)"
         and w = "run example_options initial [Load ''en'' ''common'' (Some 1)]"
         and wa = "after example_options
                     (run example_options initial [Load ''en'' ''common'' (Some 1)])
                     (IndexResponse 0 (NoResponse aborted))"
         and wb = "after example_options
                     (run example_options initial [Load ''en'' ''common'' (Some 1)])
                     (IndexResponse 0 (Response 404 (Parsed JNull)))"
         and err = aborted and err' = "new_Error ''Failed to load''"
         and loc = "''en''" and i = 0 and cfg = example_options and ns = "''home''"
         and sig = "Some 2"]
  by (simp add: loader_defs)

text \<open>
  C3 as stated fails: two calls with the signals 1 and 2 await the same index promise,
  whose GET carries the signal 1 of the call that created it. When that GET is aborted
  the entry for \<^verbatim>\<open>en\<close> is removed although the call with signal 2, which was not
  cancelled, awaits it, and both calls throw the \<^verbatim>\<open>AbortError\<close>.
\<close>

theorem cancelled_producer_evicts_awaited_entry:
  "(\<lambda>w. (indexes w ''en'', map ix_signal (index_promises w), calls w))
     (run example_options initial
        [Load ''en'' ''common'' (Some 1), Load ''en'' ''common'' (Some 2)])
     = (Some 0, [Some 1],
        [Awaiting ''en'' ''common'' (Some 1) (Promised 0), Awaiting ''en'' ''common'' (Some 2) (Promised 0)])
   \<and> (\<lambda>w. (indexes w ''en'', map ix_state (index_promises w), calls w))
     (run example_options initial
        [Load ''en'' ''common'' (Some 1), Load ''en'' ''common'' (Some 2),
         IndexResponse 0 (NoResponse aborted), Resume 0, Resume 1])
     = (None, [Rejected aborted], [Threw aborted, Threw aborted])"
  by (simp add: loader_defs)

section \<open>The hooks of a tick\<close>

lemma sum_list_waiting_update:
  "h < length xs \<Longrightarrow>
   sum_list (map waiting (xs[h := x])) + waiting (xs ! h) = sum_list (map waiting xs) + waiting x"
proof (induction xs arbitrary: h)
  case Nil
  then show ?case by simp
next
  case (Cons a xs)
  then show ?case by (cases h) auto
qed

text \<open>What each step does to the tick, as far as the invariants need it.\<close>

lemma invoke_shape:
  "\<exists>hook bs. hooks (invoke ctx route_id args t) = hooks t @ [hook]
     \<and> batch (invoke ctx route_id args t) = batch t @ bs
     \<and> ended (invoke ctx route_id args t) = ended t
     \<and> commit_waiting hook = None \<and> wrapped hook = Pending \<and> original hook = Pending
     \<and> setLocale_calls (invoke ctx route_id args t) = setLocale_calls t
     \<and> ref_current (invoke ctx route_id args t) = ref_current t
     \<and> console_errors (invoke ctx route_id args t) = console_errors t"
  by (auto simp: invoke_def push_def Let_def split: prod.splits)

lemma phrases_settle_shape:
  assumes "phrases_settle h result t = Some t'"
  shows "\<exists>hook p. lookup (hooks t) h = Some hook \<and> promisedPhrases hook = Some Pending
     \<and> is_settled p
     \<and> hooks t' = (hooks t)[h := hook\<lparr>promisedPhrases := Some p\<rparr>]
     \<and> batch t' = batch t \<and> setLocale_calls t' = setLocale_calls t
     \<and> ref_current t' = ref_current t"
proof (cases result)
  case None
  with assms show ?thesis
    by (auto simp: phrases_settle_def split: option.splits if_splits
          intro!: exI[of _ "Fulfilled ()"])
next
  case (Some err)
  with assms show ?thesis
    by (auto simp: phrases_settle_def split: option.splits if_splits
          intro!: exI[of _ "Rejected err"])
qed

lemma original_settle_shape:
  assumes "original_settle h result t = Some t'"
  shows "\<exists>hook p. lookup (hooks t) h = Some hook \<and> original hook = Pending
     \<and> hooks t' = (hooks t)[h := hook\<lparr>original := p\<rparr>]
     \<and> batch t' = batch t \<and> setLocale_calls t' = setLocale_calls t
     \<and> ref_current t' = ref_current t"
  using assms by (auto simp: original_settle_def split: option.splits if_splits)

lemma continue_shape:
  assumes "continue h t = Some t'"
  shows "\<exists>hook. lookup (hooks t) h = Some hook \<and> wrapped hook = Pending
     \<and> batch t' = batch t \<and> setLocale_calls t' = setLocale_calls t
     \<and> ((\<exists>err. original hook = Rejected err
            \<and> hooks t' = (hooks t)[h := hook\<lparr>wrapped := Rejected err\<rparr>]
            \<and> ref_current t' = ref_current t)
         \<or> (\<exists>res. original hook = Fulfilled res \<and> load_settled t h
            \<and> hooks t' = (hooks t)[h := hook\<lparr>wrapped := Fulfilled res\<rparr>]
            \<and> ref_current t' = ref_current t)
         \<or> (\<exists>res. original hook = Fulfilled res \<and> load_settled t h
            \<and> \<not> ref_current t \<and> ref_current t' \<and> \<not> falsy (locale_wanted hook)
            \<and> hooks t' = (hooks t)[h := hook\<lparr>wrapped := Fulfilled res,
                                            commit_waiting := locale_wanted hook\<rparr>]))"
  using assms by (auto simp: continue_def split: option.splits if_splits promise.splits)

lemma all_phrases_loaded_shape:
  assumes "all_phrases_loaded h t = Some t'"
  shows "\<exists>hook loc. lookup (hooks t) h = Some hook \<and> commit_waiting hook = Some loc
     \<and> aggregate_settled t
     \<and> hooks t' = (hooks t)[h := hook\<lparr>commit_waiting := None\<rparr>]
     \<and> batch t' = batch t \<and> ended t' = ended t
     \<and> setLocale_calls t' = setLocale_calls t @ [(h, loc)]
     \<and> ref_current t' = ref_current t"
  using assms by (auto simp: all_phrases_loaded_def split: option.splits if_splits)

subsection \<open>At most one commit\<close>

lemma one_commit_invoke: "one_commit t \<Longrightarrow> one_commit (invoke ctx route_id args t)"
  using invoke_shape[of ctx route_id args t]
  by (auto simp add: one_commit_def commits_def waiting_def simp del: sum_list_eq_0_iff
        split: if_splits)

lemma one_commit_phrases_settle:
  assumes "one_commit t" "phrases_settle h result t = Some t'"
  shows "one_commit t'"
proof -
  from phrases_settle_shape[OF assms(2)] obtain hook p where
    hk: "lookup (hooks t) h = Some hook" and
    t': "hooks t' = (hooks t)[h := hook\<lparr>promisedPhrases := Some p\<rparr>]"
        "setLocale_calls t' = setLocale_calls t" "ref_current t' = ref_current t"
    by blast
  from hk have lt: "h < length (hooks t)" and nth: "hooks t ! h = hook"
    by (simp_all add: lookup_Some)
  from sum_list_waiting_update[OF lt, of "hook\<lparr>promisedPhrases := Some p\<rparr>"] nth
  have "sum_list (map waiting (hooks t')) = sum_list (map waiting (hooks t))"
    by (simp add: t' waiting_def)
  with assms(1) t' show ?thesis by (simp add: one_commit_def commits_def del: sum_list_eq_0_iff)
qed

lemma one_commit_original_settle:
  assumes "one_commit t" "original_settle h result t = Some t'"
  shows "one_commit t'"
proof -
  from original_settle_shape[OF assms(2)] obtain hook p where
    hk: "lookup (hooks t) h = Some hook" and
    t': "hooks t' = (hooks t)[h := hook\<lparr>original := p\<rparr>]"
        "setLocale_calls t' = setLocale_calls t" "ref_current t' = ref_current t"
    by blast
  from hk have lt: "h < length (hooks t)" and nth: "hooks t ! h = hook"
    by (simp_all add: lookup_Some)
  from sum_list_waiting_update[OF lt, of "hook\<lparr>original := p\<rparr>"] nth
  have "sum_list (map waiting (hooks t')) = sum_list (map waiting (hooks t))"
    by (simp add: t' waiting_def)
  with assms(1) t' show ?thesis by (simp add: one_commit_def commits_def del: sum_list_eq_0_iff)
qed

lemma one_commit_continue:
  assumes "one_commit t" "continue h t = Some t'"
  shows "one_commit t'"
proof -
  from continue_shape[OF assms(2)] obtain hook where
    hk: "lookup (hooks t) h = Some hook" and calls: "setLocale_calls t' = setLocale_calls t"
    and cases: "(\<exists>p. hooks t' = (hooks t)[h := hook\<lparr>wrapped := p\<rparr>]
                    \<and> ref_current t' = ref_current t)
         \<or> (\<exists>res. \<not> ref_current t \<and> ref_current t'
            \<and> hooks t' = (hooks t)[h := hook\<lparr>wrapped := Fulfilled res,
                                            commit_waiting := locale_wanted hook\<rparr>])"
    by blast
  from hk have lt: "h < length (hooks t)" and nth: "hooks t ! h = hook"
    by (simp_all add: lookup_Some)
  from cases show ?thesis
  proof (elim disjE exE conjE)
    fix p
    assume keep: "hooks t' = (hooks t)[h := hook\<lparr>wrapped := p\<rparr>]"
      "ref_current t' = ref_current t"
    from sum_list_waiting_update[OF lt, of "hook\<lparr>wrapped := p\<rparr>"] nth
    have "sum_list (map waiting (hooks t')) = sum_list (map waiting (hooks t))"
      by (simp add: keep waiting_def)
    with assms(1) keep calls show ?thesis
      by (simp add: one_commit_def commits_def del: sum_list_eq_0_iff)
  next
    fix res
    assume win: "\<not> ref_current t" "ref_current t'"
      "hooks t' = (hooks t)[h := hook\<lparr>wrapped := Fulfilled res,
                                      commit_waiting := locale_wanted hook\<rparr>]"
    have "waiting (hook\<lparr>wrapped := Fulfilled res, commit_waiting := locale_wanted hook\<rparr>) \<le> 1"
      by (simp add: waiting_def split: option.splits)
    with sum_list_waiting_update[OF lt,
        of "hook\<lparr>wrapped := Fulfilled res, commit_waiting := locale_wanted hook\<rparr>"]
    have "sum_list (map waiting (hooks t')) \<le> sum_list (map waiting (hooks t)) + 1"
      by (simp add: win)
    with assms(1) win calls show ?thesis
      by (simp add: one_commit_def commits_def del: sum_list_eq_0_iff)
  qed
qed

lemma one_commit_all_phrases_loaded:
  assumes "one_commit t" "all_phrases_loaded h t = Some t'"
  shows "one_commit t'"
proof -
  from all_phrases_loaded_shape[OF assms(2)] obtain hook loc where
    hk: "lookup (hooks t) h = Some hook" and
    t': "hooks t' = (hooks t)[h := hook\<lparr>commit_waiting := None\<rparr>]"
        "setLocale_calls t' = setLocale_calls t @ [(h, loc)]" "ref_current t' = ref_current t"
        "commit_waiting hook = Some loc"
    by blast
  from hk have lt: "h < length (hooks t)" and nth: "hooks t ! h = hook"
    by (simp_all add: lookup_Some)
  from sum_list_waiting_update[OF lt, of "hook\<lparr>commit_waiting := None\<rparr>"] nth
  have "sum_list (map waiting (hooks t')) + 1 = sum_list (map waiting (hooks t))"
    by (simp add: t' waiting_def)
  with assms(1) t' show ?thesis by (simp add: one_commit_def commits_def del: sum_list_eq_0_iff)
qed

lemma one_commit_tick_ends: "one_commit t \<Longrightarrow> one_commit (t\<lparr>ended := True\<rparr>)"
  by (simp add: one_commit_def commits_def)

lemma one_commit_after: "one_commit t \<Longrightarrow> one_commit (hook_after ctx t e)"
  by (cases e)
     (auto simp: hook_after_def one_commit_invoke one_commit_tick_ends
           intro: one_commit_phrases_settle one_commit_original_settle one_commit_continue
             one_commit_all_phrases_loaded
           split: option.splits)

lemma one_commit_run: "one_commit t \<Longrightarrow> one_commit (hook_run ctx t es)"
  by (induction es arbitrary: t) (auto intro: one_commit_after)

lemma one_commit_fresh: "one_commit fresh_tick"
  by (simp add: one_commit_def commits_def fresh_tick_def)

lemma at_most_one_commit: "length (setLocale_calls (hook_run ctx fresh_tick es)) \<le> 1"
  using one_commit_run[OF one_commit_fresh, of ctx es]
  by (simp add: one_commit_def commits_def split: if_splits)

subsection \<open>The wrapped hook settles as the original does\<close>

lemma wrapped_after:
  assumes "list_all wrapped_as_original (hooks t)"
  shows "list_all wrapped_as_original (hooks (hook_after ctx t e))"
proof (cases e)
  case (Invoke route_id args)
  with assms invoke_shape[of ctx route_id args t] show ?thesis
    by (auto simp: hook_after_def wrapped_as_original_def)
next
  case TickEnds
  with assms show ?thesis by (simp add: hook_after_def)
next
  case (PhrasesSettle h result)
  show ?thesis
  proof (cases "phrases_settle h result t")
    case None
    with assms PhrasesSettle show ?thesis by (simp add: hook_after_def)
  next
    case (Some t')
    from phrases_settle_shape[OF Some] obtain hook p where
      hk: "lookup (hooks t) h = Some hook" and
      t': "hooks t' = (hooks t)[h := hook\<lparr>promisedPhrases := Some p\<rparr>]"
      by blast
    from hk assms have "wrapped_as_original hook"
      by (auto simp: lookup_Some list_all_length)
    then have "wrapped_as_original (hook\<lparr>promisedPhrases := Some p\<rparr>)"
      by (simp add: wrapped_as_original_def split: promise.splits)
    with assms t' Some PhrasesSettle show ?thesis
      by (simp add: hook_after_def list_all_update)
  qed
next
  case (OriginalSettle h result)
  show ?thesis
  proof (cases "original_settle h result t")
    case None
    with assms OriginalSettle show ?thesis by (simp add: hook_after_def)
  next
    case (Some t')
    from original_settle_shape[OF Some] obtain hook p where
      hk: "lookup (hooks t) h = Some hook" and pend: "original hook = Pending" and
      t': "hooks t' = (hooks t)[h := hook\<lparr>original := p\<rparr>]"
      by blast
    from hk assms have "wrapped_as_original hook"
      by (auto simp: lookup_Some list_all_length)
    with pend have "wrapped_as_original (hook\<lparr>original := p\<rparr>)"
      by (auto simp: wrapped_as_original_def split: promise.splits)
    with assms t' Some OriginalSettle show ?thesis
      by (simp add: hook_after_def list_all_update)
  qed
next
  case (Continue h)
  show ?thesis
  proof (cases "continue h t")
    case None
    with assms Continue show ?thesis by (simp add: hook_after_def)
  next
    case (Some t')
    from continue_shape[OF Some] obtain hook where
      "(\<exists>err. original hook = Rejected err
            \<and> hooks t' = (hooks t)[h := hook\<lparr>wrapped := Rejected err\<rparr>])
         \<or> (\<exists>res. original hook = Fulfilled res
            \<and> hooks t' = (hooks t)[h := hook\<lparr>wrapped := Fulfilled res\<rparr>])
         \<or> (\<exists>res. original hook = Fulfilled res
            \<and> hooks t' = (hooks t)[h := hook\<lparr>wrapped := Fulfilled res,
                                            commit_waiting := locale_wanted hook\<rparr>])"
      by blast
    then have "list_all wrapped_as_original (hooks t')"
      using assms by (auto simp: wrapped_as_original_def intro!: list_all_update)
    with Some Continue show ?thesis by (simp add: hook_after_def)
  qed
next
  case (AllPhrasesLoaded h)
  show ?thesis
  proof (cases "all_phrases_loaded h t")
    case None
    with assms AllPhrasesLoaded show ?thesis by (simp add: hook_after_def)
  next
    case (Some t')
    from all_phrases_loaded_shape[OF Some] obtain hook where
      hk: "lookup (hooks t) h = Some hook" and
      t': "hooks t' = (hooks t)[h := hook\<lparr>commit_waiting := None\<rparr>]"
      by blast
    from hk assms have "wrapped_as_original hook"
      by (auto simp: lookup_Some list_all_length)
    then have "wrapped_as_original (hook\<lparr>commit_waiting := None\<rparr>)"
      by (simp add: wrapped_as_original_def split: promise.splits)
    with assms t' Some AllPhrasesLoaded show ?thesis
      by (simp add: hook_after_def list_all_update)
  qed
qed

lemma wrapped_run:
  "list_all wrapped_as_original (hooks t) \<Longrightarrow>
   list_all wrapped_as_original (hooks (hook_run ctx t es))"
  by (induction es arbitrary: t) (auto intro: wrapped_after)

lemma continue_returns_original:
  assumes "lookup (hooks t) h = Some hook" "wrapped hook = Pending"
    "original hook = Fulfilled res"
    "promisedPhrases hook = None \<or> promisedPhrases hook = Some (Fulfilled ())
     \<or> promisedPhrases hook = Some (Rejected err)"
  shows "\<exists>t' hook'. continue h t = Some t' \<and> lookup (hooks t') h = Some hook'
           \<and> wrapped hook' = Fulfilled res"
  using assms by (auto simp: continue_def load_settled_def lookup_def split: if_splits)

lemma phrases_failure_logged:
  assumes "phrases_settle h (Some err) t = Some t'"
  shows "console_errors t' = (if is_abort err then console_errors t else console_errors t @ [err])
         \<and> (\<exists>hook hook'. lookup (hooks t) h = Some hook \<and> lookup (hooks t') h = Some hook'
               \<and> promisedPhrases hook' = Some (Rejected err)
               \<and> wrapped hook' = wrapped hook \<and> original hook' = original hook)"
  using assms by (auto simp: phrases_settle_def lookup_def split: option.splits if_splits)

subsection \<open>A commit comes after every load of the tick\<close>

lemmas hook_step_defs =
  hook_after_def invoke_def push_def phrases_settle_def original_settle_def continue_def
  all_phrases_loaded_def

lemma ended_stays: "ended t \<Longrightarrow> ended (hook_after ctx t e)"
  by (cases e)
     (auto simp: hook_step_defs Let_def split: option.splits if_splits promise.splits prod.splits)

lemma batch_closed: "ended t \<Longrightarrow> batch (hook_after ctx t e) = batch t"
  by (cases e)
     (auto simp: hook_step_defs Let_def split: option.splits if_splits promise.splits prod.splits)

lemma load_settled_after:
  "load_settled t i \<Longrightarrow> load_settled (hook_after ctx t e) i"
  by (cases e)
     (auto simp: hook_step_defs load_settled_def lookup_def nth_append nth_list_update Let_def
           split: option.splits if_splits promise.splits prod.splits)

lemma request_kept:
  "lookup (hooks t) i = Some hook \<Longrightarrow>
   \<exists>hook'. lookup (hooks (hook_after ctx t e)) i = Some hook'
     \<and> locale_wanted hook' = locale_wanted hook"
  by (cases e)
     (auto simp: hook_step_defs lookup_def nth_append nth_list_update Let_def
           split: option.splits if_splits promise.splits prod.splits)

lemma aggregate_settled_after:
  assumes "aggregate_settled t"
  shows "aggregate_settled (hook_after ctx t e)"
proof -
  from assms have "ended t" and all: "list_all (load_settled t) (batch t)"
    by (simp_all add: aggregate_settled_def)
  then have "ended (hook_after ctx t e)" "batch (hook_after ctx t e) = batch t"
    by (simp_all add: ended_stays batch_closed)
  with all show ?thesis
    by (auto simp: aggregate_settled_def list_all_iff intro: load_settled_after)
qed

lemma commit_in_order_after:
  assumes "commit_in_order t c"
  shows "commit_in_order (hook_after ctx t e) c"
proof -
  from assms obtain hook where hk: "lookup (hooks t) (fst c) = Some hook"
    and ok: "locale_wanted hook = Some (snd c)" "aggregate_settled t"
    by (auto simp: commit_in_order_def split: option.splits)
  from request_kept[OF hk, of ctx e] obtain hook' where
    "lookup (hooks (hook_after ctx t e)) (fst c) = Some hook'"
    "locale_wanted hook' = locale_wanted hook"
    by blast
  with ok aggregate_settled_after[OF ok(2), of ctx e] show ?thesis
    by (simp add: commit_in_order_def)
qed

lemma hook_sound_after:
  assumes "list_all hook_sound (hooks t)"
  shows "list_all hook_sound (hooks (hook_after ctx t e))"
  using assms
  by (cases e)
     (auto simp: hook_step_defs hook_sound_def list_all_length lookup_def nth_append
             nth_list_update Let_def
           split: option.splits if_splits promise.splits prod.splits)

lemma registered_iff:
  "registered t \<longleftrightarrow>
   (\<forall>h < length (hooks t). promisedPhrases (hooks t ! h) = None \<or> h \<in> set (batch t))"
  by (auto simp: registered_def list_all_iff)

lemma registered_after:
  assumes "registered t"
  shows "registered (hook_after ctx t e)"
  using assms
  by (cases e)
     (auto simp: hook_step_defs registered_iff lookup_def nth_append nth_list_update Let_def
             less_Suc_eq
           split: option.splits if_splits promise.splits prod.splits)

lemma all_loads_done:
  assumes "registered t" "aggregate_settled t"
  shows "list_all load_done (hooks t)"
proof -
  have "load_done (hooks t ! h)" if h: "h < length (hooks t)" for h
  proof (cases "promisedPhrases (hooks t ! h)")
    case None
    then show ?thesis by (simp add: load_done_def)
  next
    case (Some p)
    with assms(1) h have "h \<in> set (batch t)"
      by (auto simp: registered_iff)
    with assms(2) have "load_settled t h"
      by (auto simp: aggregate_settled_def list_all_iff)
    with h Some show ?thesis
      by (simp add: load_settled_def load_done_def lookup_def)
  qed
  then show ?thesis by (simp add: list_all_length)
qed

lemma new_commit_in_order:
  assumes "list_all hook_sound (hooks t)" "all_phrases_loaded h t = Some t'"
    "hook_after ctx t (AllPhrasesLoaded h) = t'"
  shows "\<exists>loc. setLocale_calls t' = setLocale_calls t @ [(h, loc)] \<and> commit_in_order t' (h, loc)"
proof -
  from all_phrases_loaded_shape[OF assms(2)] obtain hook loc where
    hk: "lookup (hooks t) h = Some hook" and w: "commit_waiting hook = Some loc"
    and agg: "aggregate_settled t"
    and t': "hooks t' = (hooks t)[h := hook\<lparr>commit_waiting := None\<rparr>]"
      "setLocale_calls t' = setLocale_calls t @ [(h, loc)]"
    by blast
  from hk assms(1) have "hook_sound hook"
    by (auto simp: lookup_Some list_all_length)
  with w have wanted: "locale_wanted hook = Some loc"
    by (simp add: hook_sound_def)
  from aggregate_settled_after[OF agg, of ctx "AllPhrasesLoaded h"] assms(3)
  have "aggregate_settled t'"
    by simp
  with hk wanted t' show ?thesis
    by (auto simp: commit_in_order_def lookup_def split: if_splits)
qed

lemma setLocale_only_by_callback:
  assumes "setLocale_calls (hook_after ctx t e) \<noteq> setLocale_calls t"
  shows "\<exists>h hook loc. e = AllPhrasesLoaded h \<and> lookup (hooks t) h = Some hook
           \<and> commit_waiting hook = Some loc \<and> aggregate_settled t
           \<and> all_phrases_loaded h t = Some (hook_after ctx t e)
           \<and> setLocale_calls (hook_after ctx t e) = setLocale_calls t @ [(h, loc)]"
proof (cases e)
  case (Invoke route_id args)
  with assms invoke_shape[of ctx route_id args t] show ?thesis
    by (auto simp: hook_after_def split: if_splits)
next
  case TickEnds
  with assms show ?thesis by (auto simp: hook_after_def split: if_splits)
next
  case (PhrasesSettle h result)
  with assms phrases_settle_shape[of h result t] show ?thesis
    by (cases "phrases_settle h result t") (auto simp: hook_after_def)
next
  case (OriginalSettle h result)
  with assms original_settle_shape[of h result t] show ?thesis
    by (cases "original_settle h result t") (auto simp: hook_after_def)
next
  case (Continue h)
  with assms continue_shape[of h t] show ?thesis
    by (cases "continue h t") (auto simp: hook_after_def)
next
  case (AllPhrasesLoaded h)
  with assms all_phrases_loaded_shape[of h t] show ?thesis
    by (cases "all_phrases_loaded h t") (auto simp: hook_after_def)
qed

lemma commits_in_order_after:
  assumes "list_all hook_sound (hooks t)" "list_all (commit_in_order t) (setLocale_calls t)"
  shows "list_all (commit_in_order (hook_after ctx t e)) (setLocale_calls (hook_after ctx t e))"
proof (cases "setLocale_calls (hook_after ctx t e) = setLocale_calls t")
  case True
  with assms(2) show ?thesis
    by (auto simp: list_all_iff intro: commit_in_order_after)
next
  case False
  from setLocale_only_by_callback[OF False] obtain h where
    e: "e = AllPhrasesLoaded h" and step: "all_phrases_loaded h t = Some (hook_after ctx t e)"
    by blast
  from new_commit_in_order[OF assms(1) step] e obtain loc where
    "setLocale_calls (hook_after ctx t e) = setLocale_calls t @ [(h, loc)]"
    "commit_in_order (hook_after ctx t e) (h, loc)"
    by auto
  moreover have "list_all (commit_in_order (hook_after ctx t e)) (setLocale_calls t)"
    using assms(2) by (auto simp: list_all_iff intro: commit_in_order_after)
  ultimately show ?thesis by simp
qed

lemma tick_sound_after: "tick_sound t \<Longrightarrow> tick_sound (hook_after ctx t e)"
  by (simp add: tick_sound_def hook_sound_after registered_after commits_in_order_after)

lemma tick_sound_run: "tick_sound t \<Longrightarrow> tick_sound (hook_run ctx t es)"
  by (induction es arbitrary: t) (auto intro: tick_sound_after)

lemma tick_sound_fresh: "tick_sound fresh_tick"
  by (simp add: tick_sound_def fresh_tick_def registered_def)

lemmas hook_defs =
  hook_step_defs requested_def read_property_def object_prototype_def example_context_def
  fresh_tick_def load_settled_def
  aggregate_settled_def load_done_def lookup_def is_abort_def new_Error_def aborted_def Let_def

section \<open>The navigation batch\<close>

text \<open>
  C2. In every run of a tick \<^verbatim>\<open>setLocale\<close> is called at most once, however many hooks
  ask for a locale. Every invocation that has a load has it in the batch. When a call of
  \<^verbatim>\<open>setLocale\<close> has been made, the tick has ended and every load of every invocation of
  the tick has settled, fulfilled or rejected; and the calls change only by the callback
  of an invocation that asked for the locale, in a step before which the tick had ended
  and all those loads had settled.
\<close>

theorem one_commit_after_all_loads:
  assumes "t = hook_run ctx fresh_tick es"
  shows "length (setLocale_calls t) \<le> 1
   \<and> registered t
   \<and> list_all (commit_in_order t) (setLocale_calls t)
   \<and> (setLocale_calls t \<noteq> [] \<longrightarrow> ended t \<and> list_all load_done (hooks t))
   \<and> (setLocale_calls (hook_after ctx t e) \<noteq> setLocale_calls t \<longrightarrow>
        (\<exists>h hook loc. e = AllPhrasesLoaded h \<and> lookup (hooks t) h = Some hook
           \<and> commit_waiting hook = Some loc \<and> locale_wanted hook = Some loc
           \<and> ended t \<and> list_all load_done (hooks t)
           \<and> setLocale_calls (hook_after ctx t e) = setLocale_calls t @ [(h, loc)]))"
proof -
  have sound: "tick_sound t"
    unfolding assms by (rule tick_sound_run) (rule tick_sound_fresh)
  then have reg: "registered t" and hs: "list_all hook_sound (hooks t)"
    and ord: "list_all (commit_in_order t) (setLocale_calls t)"
    by (simp_all add: tick_sound_def)
  have a: "length (setLocale_calls t) \<le> 1"
    unfolding assms by (rule at_most_one_commit)
  have d: "setLocale_calls t \<noteq> [] \<longrightarrow> ended t \<and> list_all load_done (hooks t)"
  proof
    assume "setLocale_calls t \<noteq> []"
    then obtain c where "c \<in> set (setLocale_calls t)"
      by (cases "setLocale_calls t") auto
    with ord have "commit_in_order t c"
      by (simp add: list_all_iff)
    then have agg: "aggregate_settled t"
      by (auto simp: commit_in_order_def split: option.splits)
    with reg show "ended t \<and> list_all load_done (hooks t)"
      by (simp add: all_loads_done aggregate_settled_def)
  qed
  have e: "setLocale_calls (hook_after ctx t e) \<noteq> setLocale_calls t \<longrightarrow>
        (\<exists>h hook loc. e = AllPhrasesLoaded h \<and> lookup (hooks t) h = Some hook
           \<and> commit_waiting hook = Some loc \<and> locale_wanted hook = Some loc
           \<and> ended t \<and> list_all load_done (hooks t)
           \<and> setLocale_calls (hook_after ctx t e) = setLocale_calls t @ [(h, loc)])"
  proof
    assume "setLocale_calls (hook_after ctx t e) \<noteq> setLocale_calls t"
    from setLocale_only_by_callback[OF this] obtain h hook loc where
      step: "e = AllPhrasesLoaded h" "lookup (hooks t) h = Some hook"
        "commit_waiting hook = Some loc" "aggregate_settled t"
        "setLocale_calls (hook_after ctx t e) = setLocale_calls t @ [(h, loc)]"
      by blast
    from step(2) hs have "hook_sound hook"
      by (auto simp: lookup_Some list_all_length)
    with step(3) have "locale_wanted hook = Some loc"
      by (simp add: hook_sound_def)
    moreover from reg step(4) have "ended t \<and> list_all load_done (hooks t)"
      by (simp add: all_loads_done aggregate_settled_def)
    ultimately show "\<exists>h hook loc. e = AllPhrasesLoaded h \<and> lookup (hooks t) h = Some hook
           \<and> commit_waiting hook = Some loc \<and> locale_wanted hook = Some loc
           \<and> ended t \<and> list_all load_done (hooks t)
           \<and> setLocale_calls (hook_after ctx t e) = setLocale_calls t @ [(h, loc)]"
      using step by blast
  qed
  from a reg ord d e show ?thesis by blast
qed

theorem one_commit_after_all_loads_witness:
  "(\<lambda>t. (setLocale_calls t, ref_current t, batch t, map promisedPhrases (hooks t),
          map wrapped (hooks t)))
     (hook_run example_context fresh_tick
        [Invoke ''root'' (), Invoke ''routes/child'' (), TickEnds,
         PhrasesSettle 0 None, PhrasesSettle 1 None,
         OriginalSettle 0 (Inr (10::nat)), OriginalSettle 1 (Inr 20),
         Continue 0, Continue 1, AllPhrasesLoaded 0, AllPhrasesLoaded 1])
   = ([(0, ''es'')], True, [0, 1],
      [Some (Fulfilled ()), Some (Fulfilled ())],
      [Fulfilled 10, Fulfilled 20])
   \<and> (\<lambda>t. (setLocale_calls t, map promisedPhrases (hooks t), map commit_waiting (hooks t)))
     (hook_run example_context fresh_tick
        [Invoke ''root'' (), Invoke ''routes/child'' (), TickEnds,
         PhrasesSettle 0 None, OriginalSettle 0 (Inr (10::nat)), Continue 0,
         AllPhrasesLoaded 0])
   = ([], [Some (Fulfilled ()), Some Pending], [Some ''es'', None])"
  using one_commit_after_all_loads
    [OF refl, where ctx = example_context
       and es = "[Invoke ''root'' (), Invoke ''routes/child'' (), TickEnds,
            PhrasesSettle 0 None, PhrasesSettle 1 None,
            OriginalSettle 0 (Inr (10::nat)), OriginalSettle 1 (Inr 20),
            Continue 0, Continue 1]"
       and e = "AllPhrasesLoaded 0"]
    one_commit_after_all_loads
    [OF refl, where ctx = example_context
       and es = "[Invoke ''root'' (), Invoke ''routes/child'' (), TickEnds,
         PhrasesSettle 0 None, PhrasesSettle 1 None,
         OriginalSettle 0 (Inr (10::nat)), OriginalSettle 1 (Inr 20),
         Continue 0, Continue 1, AllPhrasesLoaded 0, AllPhrasesLoaded 1]"]
  by (simp add: hook_defs)

section \<open>The result of a wrapped hook\<close>

text \<open>
  C7. In every run of a tick the promise of a wrapped hook is fulfilled only with the
  result \<^verbatim>\<open>original\<close> was fulfilled with, and rejected only with the error \<^verbatim>\<open>original\<close> was
  rejected with. Once \<^verbatim>\<open>original\<close> has fulfilled and the translation load has settled,
  fulfilled or rejected, or there is none, the wrapped hook continues and returns the
  result of \<^verbatim>\<open>original\<close>. A rejected translation load leaves the promises of the hook as
  they are; its error is logged with \<^verbatim>\<open>console.error\<close> unless it is an \<^verbatim>\<open>AbortError\<close>, which
  is dropped.
\<close>

theorem wrapped_returns_original:
  "list_all wrapped_as_original (hooks (hook_run ctx fresh_tick es))
   \<and> (lookup (hooks t) h = Some hook \<and> wrapped hook = Pending
        \<and> original hook = Fulfilled res
        \<and> (promisedPhrases hook = None \<or> promisedPhrases hook = Some (Fulfilled ())
           \<or> promisedPhrases hook = Some (Rejected err)) \<longrightarrow>
      (\<exists>t' hook'. continue h t = Some t' \<and> lookup (hooks t') h = Some hook'
         \<and> wrapped hook' = Fulfilled res))
   \<and> (phrases_settle h (Some err) t = Some t' \<longrightarrow>
      console_errors t' = (if is_abort err then console_errors t else console_errors t @ [err])
      \<and> (\<exists>hook hook'. lookup (hooks t) h = Some hook \<and> lookup (hooks t') h = Some hook'
            \<and> promisedPhrases hook' = Some (Rejected err)
            \<and> wrapped hook' = wrapped hook \<and> original hook' = original hook))"
proof -
  have a: "list_all wrapped_as_original (hooks (hook_run ctx fresh_tick es))"
    by (rule wrapped_run) (simp add: fresh_tick_def)
  have b: "lookup (hooks t) h = Some hook \<and> wrapped hook = Pending
        \<and> original hook = Fulfilled res
        \<and> (promisedPhrases hook = None \<or> promisedPhrases hook = Some (Fulfilled ())
           \<or> promisedPhrases hook = Some (Rejected err)) \<longrightarrow>
      (\<exists>t' hook'. continue h t = Some t' \<and> lookup (hooks t') h = Some hook'
         \<and> wrapped hook' = Fulfilled res)"
    using continue_returns_original[of t h hook res err] by blast
  have c: "phrases_settle h (Some err) t = Some t' \<longrightarrow>
      console_errors t' = (if is_abort err then console_errors t else console_errors t @ [err])
      \<and> (\<exists>hook hook'. lookup (hooks t) h = Some hook \<and> lookup (hooks t') h = Some hook'
            \<and> promisedPhrases hook' = Some (Rejected err)
            \<and> wrapped hook' = wrapped hook \<and> original hook' = original hook)"
    using phrases_failure_logged[of h err t t'] by blast
  from a b c show ?thesis by blast
qed

theorem wrapped_returns_original_witness:
  "(\<lambda>t. (map wrapped (hooks t), console_errors t))
     (hook_run example_context fresh_tick
        [Invoke ''root'' (), Invoke ''routes/child'' (),
         PhrasesSettle 0 (Some (new_Error ''Failed to load phrases'')),
         PhrasesSettle 1 (Some aborted),
         OriginalSettle 0 (Inr (10::nat)), OriginalSettle 1 (Inr 20),
         Continue 0, Continue 1])
   = ([Fulfilled 10, Fulfilled 20], [new_Error ''Failed to load phrases''])
   \<and> (\<lambda>t. (map wrapped (hooks t), map original (hooks t)))
     (hook_run example_context fresh_tick
        [Invoke ''root'' (), PhrasesSettle 0 None,
         OriginalSettle 0 (Inl (new_Error ''loader failed'') :: js_error + nat), Continue 0])
   = ([Rejected (new_Error ''loader failed'')], [Rejected (new_Error ''loader failed'')])"
  using wrapped_returns_original
    [where ctx = example_context
       and es = "[Invoke ''root'' (), Invoke ''routes/child'' (),
         PhrasesSettle 0 (Some (new_Error ''Failed to load phrases'')),
         PhrasesSettle 1 (Some aborted),
         OriginalSettle 0 (Inr (10::nat)), OriginalSettle 1 (Inr 20),
         Continue 0, Continue 1]"
       and h = 0 and err = "new_Error ''Failed to load phrases''"
       and t = "hook_run example_context fresh_tick [Invoke ''root'' (), Invoke ''routes/child'' ()]"
       and t' = "hook_after example_context
                  (hook_run example_context fresh_tick [Invoke ''root'' (), Invoke ''routes/child'' ()])
                  (PhrasesSettle 0 (Some (new_Error ''Failed to load phrases'')))"]
  by (simp add: hook_defs)

end
